theory Spec2Isabelle
  imports Main "HOL-Library.Word" "HOL-Library.AList" "HOL-Library.Multiset"
begin

section \<open>Machine integers, hashes and byte strings\<close>

text \<open>
  Go's fixed-width integers are words. \<open>int64\<close> and \<open>uint64\<close> share the 64-bit
  representation; a signed value is read with \<open>sint\<close>, an unsigned one with \<open>uint\<close>.
  A \<open>Hash\<close> and an \<open>AssetID\<close> are \<open>[32]byte\<close> arrays, that is 256 bits; the zero
  value \<open>Hash{}\<close> is the word \<open>0\<close>. A \<open>[]byte\<close> slice is a list of bytes.
\<close>

type_synonym byte = "8 word"
type_synonym bytes = "byte list"
type_synonym uint32 = "32 word"
type_synonym uint64 = "64 word"
type_synonym int64 = "64 word"
type_synonym Hash = "256 word"
type_synonym AssetID = "256 word"

text \<open>The conversion \<open>int64(x)\<close> of a \<open>uint64\<close> keeps the bit pattern.\<close>

definition to_int64 :: "uint64 \<Rightarrow> int64" where
  "to_int64 x = x"

text \<open>
  Modelled from the spec: package \<open>chain/math/checked\<close> is imported by \<open>mux.go\<close> but is
  not among the sources. The spec calls the addition and the subtraction of the parity
  "signed 64-bit, overflow-checked" and "overflow/underflow-checked": the result and
  \<open>true\<close> when the exact result is a signed 64-bit value, \<open>false\<close> otherwise.
\<close>

definition AddInt64 :: "int64 \<Rightarrow> int64 \<Rightarrow> int64 \<times> bool" where
  "AddInt64 a b =
     (if - (2 ^ 63) \<le> sint a + sint b \<and> sint a + sint b < 2 ^ 63
      then (a + b, True) else (0, False))"

definition SubInt64 :: "int64 \<Rightarrow> int64 \<Rightarrow> int64 \<times> bool" where
  "SubInt64 a b =
     (if - (2 ^ 63) \<le> sint a - sint b \<and> sint a - sint b < 2 ^ 63
      then (a - b, True) else (0, False))"

section \<open>Errors\<close>

text \<open>
  The package-level error values of \<open>validation.go\<close>, the two errors of package \<open>vm\<close>
  that \<open>opCheckOutput\<close> returns itself, and the two decorations of package
  \<open>chain/errors\<close>: \<open>Wrap\<close>/\<open>Wrapf\<close> and \<open>WithDetailf\<close>. A formatted message is kept as its
  format (one constructor per format string of the sources) with its arguments.
\<close>

datatype message =
    checking_mux_program
  | checking_mux_source nat
  | checking_mux_destination nat
  | checking_nonce_program
  | adding_overflows uint64 AssetID nat int64
  | subtracting_underflows uint64 AssetID nat int64
  | has_no_corresponding_source nat AssetID
  | should_be_0 AssetID int64

datatype error =
    errPosition
  | errEntryType
  | errBadTimeRange
  | errEmptyResults
  | errMismatchedAssetID
  | errMismatchedBlock
  | errMismatchedMerkleRoot
  | errMismatchedReference
  | errMismatchedValue
  | errMisorderedBlockHeight
  | errMisorderedBlockTime
  | errNoPrevBlock
  | errNoSource
  | errNonemptyExtHash
  | errOverflow
  | errTxVersion
  | errUnbalanced
  | errUntimelyTransaction
  | errVersionRegression
  | errWrongBlockchain
  | errZeroTime
  | ErrContext
  | ErrBadValue
  | ErrOther string
  | Wrap error message
  | WithDetail error message

text \<open>
  A method returns an \<open>error\<close> (\<open>None\<close> is \<open>nil\<close>) or does not return at all, because
  it dereferenced a nil pointer.
\<close>

datatype 'a result = Returns 'a | Panics

section \<open>Entries and the validation state\<close>

record Program =
  VMVersion :: uint64
  Code :: bytes

record AssetAmount =
  AssetID :: AssetID
  Amount :: uint64

text \<open>
  Modelled from the spec: the types \<open>valueSource\<close>, \<open>ValueDestination\<close>, \<open>TimeRange\<close>
  and \<open>TxEntries\<close> are declared outside the given sources. The spec gives a value source
  and a value destination the fields \<open>Ref\<close>, \<open>Value\<close> and \<open>Position\<close>; of a time range
  and of the transaction the sources read \<open>body.MinTimeMS\<close>, \<open>body.MaxTimeMS\<close> and
  \<open>body.Version\<close>.
\<close>

record valueSource =
  Ref :: Hash
  Value :: AssetAmount
  Position :: uint64

record ValueDestination =
  Ref :: Hash
  Value :: AssetAmount
  Position :: uint64

record TimeRange_body =
  MinTimeMS :: uint64
  MaxTimeMS :: uint64

record TimeRange =
  body :: TimeRange_body

record TxEntries_body =
  Version :: uint64

record TxEntries =
  body :: TxEntries_body

text \<open>
  \<open>BlockHeaderEntry\<close> and the interface \<open>Entry\<close> are only passed around by the
  functions below.
\<close>

typedecl BlockHeaderEntry
typedecl Entry

record validationState =
  blockVersion :: uint64
  initialBlockID :: Hash
  currentTx :: "TxEntries option"
  currentEntryID :: Hash
  sourcePosition :: uint64
  destPosition :: uint64
  timestampMS :: uint64
  prevBlockHeader :: "BlockHeaderEntry option"
  prevBlockHeaderID :: Hash
  blockTxs :: "TxEntries option list"

record Mux_body =
  Sources :: "valueSource list"
  Program :: Program
  ExtHash :: Hash

record Mux_witness =
  Destinations :: "ValueDestination list"
  Arguments :: "bytes list"

record Mux =
  body :: Mux_body
  witness :: Mux_witness

record Nonce_body =
  Program :: Program
  TimeRange :: Hash
  ExtHash :: Hash

record Nonce_witness =
  Arguments :: "bytes list"
  Anchored :: Hash

record Nonce =
  body :: Nonce_body
  witness :: Nonce_witness
  TimeRange :: "TimeRange option"
  Anchored :: "Entry option"

text \<open>\<open>txVMContext\<close> is an empty struct, and \<open>newTxVMContext\<close> ignores its arguments.\<close>

datatype txVMContext = TxVMContext

definition newTxVMContext ::
  "TxEntries option \<Rightarrow> 'e \<Rightarrow> Program \<Rightarrow> bytes list \<Rightarrow> txVMContext" where
  "newTxVMContext txEntries entry prog args = TxVMContext"

section \<open>What \<open>CheckValid\<close> calls outside the given sources\<close>

text \<open>
  \<open>vm.Verify\<close> and the \<open>CheckValid\<close> methods of a value source and of a value
  destination are parameters. The two methods receive a pointer to a validation state and
  may write through it: they return the error and the state they leave behind the
  pointer. The parity is a Go map, whose \<open>range\<close> visits the entries in an order that
  the language leaves open: \<open>range_parity\<close> gives the sequence of entries that one
  execution visits.
\<close>

type_synonym parity = "(AssetID \<times> int64) list"

record env =
  vm_Verify :: "txVMContext \<Rightarrow> error option"
  valueSource_CheckValid ::
    "valueSource \<Rightarrow> validationState \<Rightarrow> error option \<times> validationState"
  ValueDestination_CheckValid ::
    "ValueDestination \<Rightarrow> validationState \<Rightarrow> error option \<times> validationState"
  range_parity :: "parity \<Rightarrow> parity"

section \<open>\<open>Mux.CheckValid\<close>\<close>

text \<open>
  The map \<open>parity\<close> is an association list with one pair for each key. \<open>parity[k]\<close>
  reads \<open>0\<close> for a missing key, \<open>v, ok := parity[k]\<close> tells whether the key is there,
  and \<open>parity[k] = v\<close> replaces the value of \<open>k\<close> or adds the key.
\<close>

definition parity_at :: "parity \<Rightarrow> AssetID \<Rightarrow> int64" where
  "parity_at parity k = (case map_of parity k of None \<Rightarrow> 0 | Some v \<Rightarrow> v)"

definition parity_lookup :: "parity \<Rightarrow> AssetID \<Rightarrow> int64 \<times> bool" where
  "parity_lookup parity k = (case map_of parity k of None \<Rightarrow> (0, False) | Some v \<Rightarrow> (v, True))"

definition parity_set :: "parity \<Rightarrow> AssetID \<Rightarrow> int64 \<Rightarrow> parity" where
  "parity_set parity k v = AList.update k v parity"

text \<open>
  Each descent into a source or a destination is recorded with its index, the entry and
  the validation state the callee received: the record is not part of the Go code, it
  makes the arguments of the calls visible.
\<close>

datatype descent =
    SourceDescent nat valueSource validationState
  | DestDescent nat ValueDestination validationState

text \<open>
  Lines 48 to 55: the loop over the sources, from index \<open>i\<close>. The result is the error,
  the caller's state after the loop, and the descents made.
\<close>

fun checkSources ::
  "env \<Rightarrow> validationState \<Rightarrow> nat \<Rightarrow> valueSource list
     \<Rightarrow> error option \<times> validationState \<times> descent list" where
  "checkSources E state i [] = (None, state, [])"
| "checkSources E state i (src # rest) =
     (let srcState = state;
          srcState = srcState\<lparr>sourcePosition := word_of_nat i\<rparr>;
          (err, srcState') = valueSource_CheckValid E src srcState
      in case err of
           Some e \<Rightarrow>
             (Some (Wrap e (checking_mux_source i)), state, [SourceDescent i src srcState])
         | None \<Rightarrow>
             (case checkSources E state (i + 1) rest of
                (r, state', ds) \<Rightarrow> (r, state', SourceDescent i src srcState # ds)))"

text \<open>Lines 57 to 64: the loop over the destinations.\<close>

fun checkDestinations ::
  "env \<Rightarrow> validationState \<Rightarrow> nat \<Rightarrow> ValueDestination list
     \<Rightarrow> error option \<times> validationState \<times> descent list" where
  "checkDestinations E state i [] = (None, state, [])"
| "checkDestinations E state i (dest # rest) =
     (let destState = state;
          destState = destState\<lparr>destPosition := word_of_nat i\<rparr>;
          (err, destState') = ValueDestination_CheckValid E dest destState
      in case err of
           Some e \<Rightarrow>
             (Some (Wrap e (checking_mux_destination i)), state, [DestDescent i dest destState])
         | None \<Rightarrow>
             (case checkDestinations E state (i + 1) rest of
                (r, state', ds) \<Rightarrow> (r, state', DestDescent i dest destState # ds)))"

text \<open>
  Lines 67 to 73: the sources are added to the parity. The Go variable \<open>sum\<close> is
  \<open>acc\<close> here and in the next loop, \<open>sum\<close> being a constant of HOL.
\<close>

fun addSources :: "nat \<Rightarrow> valueSource list \<Rightarrow> parity \<Rightarrow> error + parity" where
  "addSources i [] parity = Inr parity"
| "addSources i (src # rest) parity =
     (case AddInt64 (parity_at parity (AssetID (valueSource.Value src)))
                    (to_int64 (Amount (valueSource.Value src))) of
        (acc, ok) \<Rightarrow>
          if \<not> ok then
            Inl (WithDetail errOverflow
                   (adding_overflows (Amount (valueSource.Value src))
                      (AssetID (valueSource.Value src)) i
                      (parity_at parity (AssetID (valueSource.Value src)))))
          else addSources (i + 1) rest
                 (parity_set parity (AssetID (valueSource.Value src)) acc))"

text \<open>Lines 75 to 86: the destinations are subtracted from the parity.\<close>

fun subDestinations :: "nat \<Rightarrow> ValueDestination list \<Rightarrow> parity \<Rightarrow> error + parity" where
  "subDestinations i [] parity = Inr parity"
| "subDestinations i (dest # rest) parity =
     (case parity_lookup parity (AssetID (ValueDestination.Value dest)) of
        (acc, ok) \<Rightarrow>
          if \<not> ok then
            Inl (WithDetail errNoSource
                   (has_no_corresponding_source i (AssetID (ValueDestination.Value dest))))
          else
            (case SubInt64 acc (to_int64 (Amount (ValueDestination.Value dest))) of
               (diff, ok) \<Rightarrow>
                 if \<not> ok then
                   Inl (WithDetail errOverflow
                          (subtracting_underflows (Amount (ValueDestination.Value dest))
                             (AssetID (ValueDestination.Value dest)) i acc))
                 else subDestinations (i + 1) rest
                        (parity_set parity (AssetID (ValueDestination.Value dest)) diff)))"

text \<open>
  Lines 88 to 92: the loop over the entries of the parity, in the order in which the
  \<open>range\<close> visits them.
\<close>

fun checkBalance :: "parity \<Rightarrow> error option" where
  "checkBalance [] = None"
| "checkBalance ((assetID, amount) # rest) =
     (if amount \<noteq> 0 then Some (WithDetail errUnbalanced (should_be_0 assetID amount))
      else checkBalance rest)"

text \<open>
  Lines 94 to 98, shared by line 58 to 62 of \<open>Nonce.CheckValid\<close>: the extension hash
  under version 1. \<open>state.currentTx\<close> is a pointer, and reading through a nil pointer
  panics.
\<close>

definition checkExtHash :: "validationState \<Rightarrow> Hash \<Rightarrow> error option result" where
  "checkExtHash state extHash =
     (case currentTx state of
        None \<Rightarrow> Panics
      | Some tx \<Rightarrow>
          if Version (TxEntries.body tx) = 1 \<and> extHash \<noteq> 0 then Returns (Some errNonemptyExtHash)
          else Returns None)"

text \<open>Lines 66 to 98: the parity, the balance and the extension hash.\<close>

definition checkParity :: "env \<Rightarrow> Mux \<Rightarrow> validationState \<Rightarrow> error option result" where
  "checkParity E mux state =
     (case addSources 0 (Sources (Mux.body mux)) [] of
        Inl err \<Rightarrow> Returns (Some err)
      | Inr parity \<Rightarrow>
          (case subDestinations 0 (Destinations (Mux.witness mux)) parity of
             Inl err \<Rightarrow> Returns (Some err)
           | Inr parity \<Rightarrow>
               (case checkBalance (range_parity E parity) of
                  Some err \<Rightarrow> Returns (Some err)
                | None \<Rightarrow> checkExtHash state (Mux_body.ExtHash (Mux.body mux)))))"

text \<open>
  The whole method: the value it returns, the caller's validation state when it ends,
  and the descents it made.
\<close>

definition Mux_CheckValid_run ::
  "env \<Rightarrow> Mux \<Rightarrow> validationState \<Rightarrow> error option result \<times> validationState \<times> descent list" where
  "Mux_CheckValid_run E mux state =
     (case vm_Verify E (newTxVMContext (currentTx state) mux (Mux_body.Program (Mux.body mux))
                          (Mux_witness.Arguments (Mux.witness mux))) of
        Some err \<Rightarrow> (Returns (Some (Wrap err checking_mux_program)), state, [])
      | None \<Rightarrow>
          (case checkSources E state 0 (Sources (Mux.body mux)) of
             (Some err, state, ds) \<Rightarrow> (Returns (Some err), state, ds)
           | (None, state, ds) \<Rightarrow>
               (case checkDestinations E state 0 (Destinations (Mux.witness mux)) of
                  (Some err, state, ds') \<Rightarrow> (Returns (Some err), state, ds @ ds')
                | (None, state, ds') \<Rightarrow> (checkParity E mux state, state, ds @ ds'))))"

definition Mux_CheckValid :: "env \<Rightarrow> Mux \<Rightarrow> validationState \<Rightarrow> error option result" where
  "Mux_CheckValid E mux state = fst (Mux_CheckValid_run E mux state)"

text \<open>
  The parity in the words of the spec, to be compared with the one the loops compute: for
  an asset, the amounts of its sources added up, and the amounts of its destinations
  added up. An amount is the unsigned 64-bit number of the entry, and the totals are
  integers without a bound.
\<close>

definition spec_sourceTotal :: "valueSource list \<Rightarrow> AssetID \<Rightarrow> int" where
  "spec_sourceTotal srcs a =
     (\<Sum>src\<leftarrow>srcs. if AssetID (valueSource.Value src) = a
                  then uint (Amount (valueSource.Value src)) else 0)"

definition spec_destinationTotal :: "ValueDestination list \<Rightarrow> AssetID \<Rightarrow> int" where
  "spec_destinationTotal dests a =
     (\<Sum>dest\<leftarrow>dests. if AssetID (ValueDestination.Value dest) = a
                   then uint (Amount (ValueDestination.Value dest)) else 0)"

text \<open>
  The descents in the words of the spec: for the \<open>i\<close>-th source the validation state
  is cloned with \<open>SourcePosition = i\<close> and the source is validated with the clone, for
  the \<open>i\<close>-th destination with \<open>DestPosition = i\<close>; the first failure propagates with
  its index. \<open>spec_sourceDescents\<close> and \<open>spec_destinationDescents\<close> give, by
  index, what the callee answers when it is handed that clone.
\<close>

definition spec_sourceDescents ::
  "env \<Rightarrow> validationState \<Rightarrow> valueSource list \<Rightarrow> (nat \<times> error option) list" where
  "spec_sourceDescents E state srcs =
     map (\<lambda>(i, src). (i, fst (valueSource_CheckValid E src
                               (state\<lparr>sourcePosition := word_of_nat i\<rparr>))))
         (enumerate 0 srcs)"

definition spec_destinationDescents ::
  "env \<Rightarrow> validationState \<Rightarrow> ValueDestination list \<Rightarrow> (nat \<times> error option) list" where
  "spec_destinationDescents E state dests =
     map (\<lambda>(i, dest). (i, fst (ValueDestination_CheckValid E dest
                                (state\<lparr>destPosition := word_of_nat i\<rparr>))))
         (enumerate 0 dests)"

fun spec_firstFailure :: "(nat \<times> error option) list \<Rightarrow> (nat \<times> error) option" where
  "spec_firstFailure [] = None"
| "spec_firstFailure ((i, None) # answers) = spec_firstFailure answers"
| "spec_firstFailure ((i, Some e) # answers) = Some (i, e)"

section \<open>\<open>Nonce.CheckValid\<close>\<close>

definition Nonce_CheckValid :: "env \<Rightarrow> Nonce \<Rightarrow> validationState \<Rightarrow> error option result" where
  "Nonce_CheckValid E n state =
     (case vm_Verify E (newTxVMContext (currentTx state) n (Nonce_body.Program (Nonce.body n))
                          (Nonce_witness.Arguments (Nonce.witness n))) of
        Some err \<Rightarrow> Returns (Some (Wrap err checking_nonce_program))
      | None \<Rightarrow>
          (case Nonce.TimeRange n of
             None \<Rightarrow> Panics
           | Some tr \<Rightarrow>
               if MinTimeMS (TimeRange.body tr) = 0 \<or> MaxTimeMS (TimeRange.body tr) = 0
               then Returns (Some errZeroTime)
               else checkExtHash state (Nonce_body.ExtHash (Nonce.body n))))"

section \<open>\<open>opCheckOutput\<close>\<close>

text \<open>
  The struct \<open>virtualMachine\<close>, its methods \<open>applyCost\<close>, \<open>pop\<close>, \<open>popInt64\<close> and
  \<open>pushBool\<close>, the type of \<open>vm.tx\<close> and the constant \<open>OP_FAIL\<close> are declared outside
  the given sources. \<open>opCheckOutput\<close> reads the fields \<open>tx\<close> and \<open>inputIndex\<close>; the
  rest of the machine (the data stack and the run limit) is reached through the four
  methods only and is the component \<open>internals\<close>, of any type. The methods and the constant
  are parameters: a method takes the internals of the machine and returns an error or its
  result with the new internals. Of \<open>vm.tx\<close> the function calls \<open>DestIsMux\<close> and \<open>MuxDest\<close>;
  the latter returns seven values, the last one the error.
\<close>

record TxContext =
  DestIsMux :: "uint32 \<Rightarrow> bool"
  MuxDest :: "uint32 \<Rightarrow> bool \<times> bytes \<times> uint64 \<times> bytes \<times> uint64 \<times> bytes \<times> error option"

record 's virtualMachine =
  tx :: "TxContext option"
  inputIndex :: uint32
  internals :: 's

record 's vm_package =
  applyCost :: "'s \<Rightarrow> int64 \<Rightarrow> error + 's"
  pop :: "'s \<Rightarrow> bool \<Rightarrow> error + bytes \<times> 's"
  popInt64 :: "'s \<Rightarrow> bool \<Rightarrow> error + int64 \<times> 's"
  pushBool :: "'s \<Rightarrow> bool \<Rightarrow> bool \<Rightarrow> error + 's"
  OP_FAIL :: byte

definition vm_applyCost ::
  "'s vm_package \<Rightarrow> 's virtualMachine \<Rightarrow> int64 \<Rightarrow> error + 's virtualMachine" where
  "vm_applyCost P vm n =
     (case applyCost P (internals vm) n of Inl err \<Rightarrow> Inl err | Inr s \<Rightarrow> Inr (vm\<lparr>internals := s\<rparr>))"

definition vm_pop ::
  "'s vm_package \<Rightarrow> 's virtualMachine \<Rightarrow> bool \<Rightarrow> error + bytes \<times> 's virtualMachine" where
  "vm_pop P vm deferred =
     (case pop P (internals vm) deferred of
        Inl err \<Rightarrow> Inl err
      | Inr (b, s) \<Rightarrow> Inr (b, vm\<lparr>internals := s\<rparr>))"

definition vm_popInt64 ::
  "'s vm_package \<Rightarrow> 's virtualMachine \<Rightarrow> bool \<Rightarrow> error + int64 \<times> 's virtualMachine" where
  "vm_popInt64 P vm deferred =
     (case popInt64 P (internals vm) deferred of
        Inl err \<Rightarrow> Inl err
      | Inr (n, s) \<Rightarrow> Inr (n, vm\<lparr>internals := s\<rparr>))"

definition vm_pushBool ::
  "'s vm_package \<Rightarrow> 's virtualMachine \<Rightarrow> bool \<Rightarrow> bool \<Rightarrow> error + 's virtualMachine" where
  "vm_pushBool P vm b deferred =
     (case pushBool P (internals vm) b deferred of Inl err \<Rightarrow> Inl err | Inr s \<Rightarrow> Inr (vm\<lparr>internals := s\<rparr>))"

definition MaxUint32 :: int where
  "MaxUint32 = 4294967295"

text \<open>The closure \<open>someChecks\<close> of lines 130 to 141, with the variables it captures.\<close>

definition someChecks :: "bytes \<Rightarrow> int64 \<Rightarrow> bytes \<Rightarrow> bytes \<Rightarrow> uint64 \<Rightarrow> bytes \<Rightarrow> bool" where
  "someChecks assetID amount refdatahash resAssetID resAmount resData =
     (if resAssetID \<noteq> assetID then False
      else if resAmount \<noteq> amount then False
      else if length refdatahash > 0 \<and> refdatahash \<noteq> resData then False
      else True)"

text \<open>
  The function returns an error, or \<open>nil\<close> with the machine it leaves. The unsigned
  conversions \<open>uint64(amount)\<close> and \<open>uint64(vmVersion)\<close> keep the bit pattern;
  \<open>uint32(index)\<close> keeps the low 32 bits.
\<close>

definition opCheckOutput ::
  "'s vm_package \<Rightarrow> 's virtualMachine \<Rightarrow> error + 's virtualMachine" where
  "opCheckOutput P vm =
     (case tx vm of
        None \<Rightarrow> Inl ErrContext
      | Some vm_tx \<Rightarrow>
     (case vm_applyCost P vm 16 of
        Inl err \<Rightarrow> Inl err
      | Inr vm \<Rightarrow>
     (case vm_pop P vm True of
        Inl err \<Rightarrow> Inl err
      | Inr (code, vm) \<Rightarrow>
     (case vm_popInt64 P vm True of
        Inl err \<Rightarrow> Inl err
      | Inr (vmVersion, vm) \<Rightarrow>
     if sint vmVersion < 0 then Inl ErrBadValue else
     (case vm_pop P vm True of
        Inl err \<Rightarrow> Inl err
      | Inr (assetID, vm) \<Rightarrow>
     (case vm_popInt64 P vm True of
        Inl err \<Rightarrow> Inl err
      | Inr (amount, vm) \<Rightarrow>
     if sint amount < 0 then Inl ErrBadValue else
     (case vm_pop P vm True of
        Inl err \<Rightarrow> Inl err
      | Inr (refdatahash, vm) \<Rightarrow>
     (case vm_popInt64 P vm True of
        Inl err \<Rightarrow> Inl err
      | Inr (index, vm) \<Rightarrow>
     if sint index < 0 then Inl ErrBadValue else
     if sint index > MaxUint32 then Inl ErrBadValue else
     if \<not> DestIsMux vm_tx (inputIndex vm) then Inl ErrContext else
     (case MuxDest vm_tx (ucast index) of
        (isRetirement, destAssetID, destAmount, destData, destVMVersion, destCode, Some err) \<Rightarrow>
          Inl err
      | (isRetirement, destAssetID, destAmount, destData, destVMVersion, destCode, None) \<Rightarrow>
     (let ok = someChecks assetID amount refdatahash destAssetID destAmount destData in
      if \<not> ok then vm_pushBool P vm False True else
      if isRetirement then
        (if sint vmVersion = 1 \<and> length code > 0 \<and> code ! 0 = OP_FAIL P
         then vm_pushBool P vm True True
         else vm_pushBool P vm False True)
      else
      if destVMVersion \<noteq> vmVersion then vm_pushBool P vm False True else
      if destCode \<noteq> code then vm_pushBool P vm False True else
      vm_pushBool P vm True True))))))))))"

section \<open>Concrete entries, states and collaborators\<close>

text \<open>
  The values at which the theorems below are evaluated. \<open>accepting\<close> lets every program
  verify and every source and destination validate, and visits the parity in the order
  of the first insertion of each asset; \<open>rejecting_programs\<close> differs in that every
  program fails.
\<close>

definition accepting :: env where
  "accepting =
     \<lparr>vm_Verify = (\<lambda>ctx. None),
      valueSource_CheckValid = (\<lambda>src st. (None, st)),
      ValueDestination_CheckValid = (\<lambda>dest st. (None, st)),
      range_parity = (\<lambda>p. p)\<rparr>"

definition rejecting_programs :: env where
  "rejecting_programs = accepting\<lparr>vm_Verify := (\<lambda>ctx. Some (ErrOther ''false result''))\<rparr>"

text \<open>
  \<open>scribbling\<close> is \<open>accepting\<close> with callees that write through the pointer they
  receive; its destinations of amount zero fail to validate.
\<close>

definition scribbling :: env where
  "scribbling = accepting
     \<lparr>valueSource_CheckValid :=
        (\<lambda>src st. (None, st\<lparr>sourcePosition := 99, destPosition := 77, currentEntryID := 5\<rparr>)),
      ValueDestination_CheckValid :=
        (\<lambda>dest st. (if Amount (ValueDestination.Value dest) = 0 then Some errMismatchedValue else None,
                     st\<lparr>sourcePosition := 88, destPosition := 66\<rparr>))\<rparr>"

text \<open>
  \<open>position_checking\<close> has callees that look at the position they are handed: a source
  fails to validate when its \<open>sourcePosition\<close> is 1, a destination when its
  \<open>destPosition\<close> is 2; both reset the positions of the state they are given.
\<close>

definition position_checking :: env where
  "position_checking = accepting
     \<lparr>valueSource_CheckValid :=
        (\<lambda>src st. (if sourcePosition st = 1 then Some errPosition else None,
                    st\<lparr>sourcePosition := 0, destPosition := 0\<rparr>)),
      ValueDestination_CheckValid :=
        (\<lambda>dest st. (if destPosition st = 2 then Some errPosition else None,
                     st\<lparr>sourcePosition := 0, destPosition := 0\<rparr>))\<rparr>"

definition state_of_version :: "uint64 \<Rightarrow> validationState" where
  "state_of_version v =
     \<lparr>blockVersion = 1, initialBlockID = 0,
      currentTx = Some \<lparr>TxEntries.body = \<lparr>Version = v\<rparr>\<rparr>,
      currentEntryID = 0, sourcePosition = 0, destPosition = 0, timestampMS = 0,
      prevBlockHeader = None, prevBlockHeaderID = 0, blockTxs = []\<rparr>"

definition assetA :: AssetID where
  "assetA = 10"

definition source_of :: "AssetID \<Rightarrow> uint64 \<Rightarrow> valueSource" where
  "source_of a n =
     \<lparr>valueSource.Ref = 0, valueSource.Value = \<lparr>AssetID = a, Amount = n\<rparr>,
      valueSource.Position = 0\<rparr>"

definition destination_of :: "AssetID \<Rightarrow> uint64 \<Rightarrow> ValueDestination" where
  "destination_of a n =
     \<lparr>ValueDestination.Ref = 0, ValueDestination.Value = \<lparr>AssetID = a, Amount = n\<rparr>,
      ValueDestination.Position = 0\<rparr>"

definition mux_of :: "valueSource list \<Rightarrow> ValueDestination list \<Rightarrow> Hash \<Rightarrow> Mux" where
  "mux_of srcs dests h =
     \<lparr>Mux.body = \<lparr>Sources = srcs, Mux_body.Program = \<lparr>VMVersion = 1, Code = [1]\<rparr>,
                   Mux_body.ExtHash = h\<rparr>,
      Mux.witness = \<lparr>Destinations = dests, Mux_witness.Arguments = []\<rparr>\<rparr>"

definition nonce_of :: "uint64 \<Rightarrow> uint64 \<Rightarrow> Hash \<Rightarrow> Nonce" where
  "nonce_of lo hi h =
     \<lparr>Nonce.body = \<lparr>Nonce_body.Program = \<lparr>VMVersion = 1, Code = [1]\<rparr>,
                     Nonce_body.TimeRange = 0, Nonce_body.ExtHash = h\<rparr>,
      Nonce.witness = \<lparr>Nonce_witness.Arguments = [], Nonce_witness.Anchored = 0\<rparr>,
      Nonce.TimeRange = Some \<lparr>TimeRange.body = \<lparr>MinTimeMS = lo, MaxTimeMS = hi\<rparr>\<rparr>,
      Nonce.Anchored = None\<rparr>"

text \<open>
  A machine whose internals are a stack of items, an item being a byte string or a number:
  \<open>pop\<close> takes the top item as bytes, \<open>popInt64\<close> as a number, \<open>pushBool\<close> pushes the
  byte string \<open>[1]\<close> or the empty one, \<open>applyCost\<close> charges nothing.
\<close>

datatype item = Bytes bytes | Int64 int64

definition stack_package :: "item list vm_package" where
  "stack_package =
     \<lparr>applyCost = (\<lambda>s n. Inr s),
      pop = (\<lambda>s d. case s of Bytes b # s' \<Rightarrow> Inr (b, s') | _ \<Rightarrow> Inl (ErrOther ''pop'')),
      popInt64 = (\<lambda>s d. case s of Int64 n # s' \<Rightarrow> Inr (n, s') | _ \<Rightarrow> Inl (ErrOther ''popInt64'')),
      pushBool = (\<lambda>s b d. Inr (Bytes (if b then [1] else []) # s)),
      OP_FAIL = 106\<rparr>"

definition tx_of_dest ::
  "bool \<Rightarrow> bool \<times> bytes \<times> uint64 \<times> bytes \<times> uint64 \<times> bytes \<times> error option \<Rightarrow> TxContext" where
  "tx_of_dest isMux d = \<lparr>DestIsMux = (\<lambda>i. isMux), MuxDest = (\<lambda>i. d)\<rparr>"

definition machine_of :: "TxContext \<Rightarrow> item list \<Rightarrow> item list virtualMachine" where
  "machine_of t s = \<lparr>tx = Some t, inputIndex = 0, internals = s\<rparr>"

text \<open>
  The six operands of \<open>CHECKOUTPUT\<close> on the stack, the top first, and two destinations
  as \<open>MuxDest\<close> returns them: an output of 5 units of the asset \<open>[10]\<close> with
  reference-data digest \<open>[7, 7]\<close>, VM version 1 and program \<open>[81, 82]\<close>, and a
  retirement of the same value.
\<close>

definition operands :: "bytes \<Rightarrow> int64 \<Rightarrow> bytes \<Rightarrow> int64 \<Rightarrow> bytes \<Rightarrow> int64 \<Rightarrow> item list" where
  "operands code vmVersion assetID amount refdatahash index =
     [Bytes code, Int64 vmVersion, Bytes assetID, Int64 amount, Bytes refdatahash, Int64 index]"

definition plain_output :: "bool \<times> bytes \<times> uint64 \<times> bytes \<times> uint64 \<times> bytes \<times> error option" where
  "plain_output = (False, [10], 5, [7, 7], 1, [81, 82], None)"

definition retirement :: "bool \<times> bytes \<times> uint64 \<times> bytes \<times> uint64 \<times> bytes \<times> error option" where
  "retirement = (True, [10], 5, [7, 7], 0, [], None)"

section \<open>Checked arithmetic, the parity map and the loops\<close>

lemma AddInt64_ok:
  "AddInt64 a b = (s, True) \<Longrightarrow> s = a + b \<and> sint s = sint a + sint b"
  by (auto simp: AddInt64_def sint_word_add signed_take_bit_int_eq_self split: if_splits)

lemma SubInt64_ok:
  "SubInt64 a b = (s, True) \<Longrightarrow> s = a - b \<and> sint s = sint a - sint b"
  by (auto simp: SubInt64_def sint_word_diff signed_take_bit_int_eq_self split: if_splits)

lemma parity_at_set:
  "parity_at (parity_set p k v) k' = (if k' = k then v else parity_at p k')"
  by (simp add: parity_at_def parity_set_def update_conv')

lemma map_of_parity_set:
  "map_of (parity_set p k v) = (map_of p)(k \<mapsto> v)"
  by (simp add: parity_set_def update_conv')

lemma distinct_parity_set:
  "distinct (map fst p) \<Longrightarrow> distinct (map fst (parity_set p k v))"
  by (simp add: parity_set_def distinct_update)

lemma parity_lookup_ok:
  "parity_lookup p k = (v, True) \<longleftrightarrow> map_of p k = Some v"
  by (auto simp: parity_lookup_def split: option.splits)

lemma parity_lookup_missing:
  "snd (parity_lookup p k) = False \<longleftrightarrow> map_of p k = None"
  by (auto simp: parity_lookup_def split: option.splits)

lemma parity_at_Some:
  "map_of p k = Some v \<Longrightarrow> parity_at p k = v"
  by (simp add: parity_at_def)

lemma to_int64_in_range:
  assumes "uint x < 2 ^ 63"
  shows "sint (to_int64 x) = uint x"
proof -
  have "- (2 ^ 63) \<le> (0 :: int)"
    by simp
  also have "0 \<le> uint x"
    by simp
  finally have "- (2 ^ 63) \<le> uint x" .
  then have "signed_take_bit 63 (uint x) = uint x"
    using assms by (rule signed_take_bit_int_eq_self)
  then show ?thesis
    by (simp add: to_int64_def sint_uint)
qed

lemma addSources_total:
  "addSources i srcs p = Inr p' \<Longrightarrow>
   \<forall>src \<in> set srcs. uint (Amount (valueSource.Value src)) < 2 ^ 63 \<Longrightarrow>
     sint (parity_at p' a) = sint (parity_at p a) + spec_sourceTotal srcs a"
proof (induction srcs arbitrary: i p)
  case Nil
  then show ?case by (simp add: spec_sourceTotal_def)
next
  case (Cons src rest)
  from Cons.prems(2) have small: "uint (Amount (valueSource.Value src)) < 2 ^ 63"
    and smalls: "\<forall>src \<in> set rest. uint (Amount (valueSource.Value src)) < 2 ^ 63"
    by simp_all
  obtain s ok where step:
    "AddInt64 (parity_at p (AssetID (valueSource.Value src)))
       (to_int64 (Amount (valueSource.Value src))) = (s, ok)"
    by (cases "AddInt64 (parity_at p (AssetID (valueSource.Value src)))
       (to_int64 (Amount (valueSource.Value src)))") 
  with Cons.prems(1) have ok: "ok"
    and rest: "addSources (i + 1) rest (parity_set p (AssetID (valueSource.Value src)) s) = Inr p'"
    by (auto split: if_splits)
  from step ok have "sint s = sint (parity_at p (AssetID (valueSource.Value src)))
       + sint (to_int64 (Amount (valueSource.Value src)))"
    using AddInt64_ok [of _ _ s] by simp
  then have s: "sint s = sint (parity_at p (AssetID (valueSource.Value src)))
       + uint (Amount (valueSource.Value src))"
    by (simp add: to_int64_in_range [OF small])
  have "sint (parity_at p' a)
        = sint (parity_at (parity_set p (AssetID (valueSource.Value src)) s) a)
          + spec_sourceTotal rest a"
    by (rule Cons.IH [OF rest smalls])
  then show ?case
    using s by (simp add: parity_at_set spec_sourceTotal_def)
qed

lemma addSources_dom:
  "addSources i srcs p = Inr p' \<Longrightarrow>
     dom (map_of p') = dom (map_of p) \<union> (\<lambda>src. AssetID (valueSource.Value src)) ` set srcs"
proof (induction srcs arbitrary: i p)
  case Nil
  then show ?case by simp
next
  case (Cons src rest)
  obtain s ok where step:
    "AddInt64 (parity_at p (AssetID (valueSource.Value src)))
       (to_int64 (Amount (valueSource.Value src))) = (s, ok)"
    by (cases "AddInt64 (parity_at p (AssetID (valueSource.Value src)))
       (to_int64 (Amount (valueSource.Value src)))") 
  with Cons.prems have 
    rest: "addSources (i + 1) rest (parity_set p (AssetID (valueSource.Value src)) s) = Inr p'"
    by (auto split: if_splits)
  show ?case
    using Cons.IH [OF rest] by (auto simp: map_of_parity_set)
qed

lemma addSources_distinct:
  "addSources i srcs p = Inr p' \<Longrightarrow> distinct (map fst p) \<Longrightarrow> distinct (map fst p')"
proof (induction srcs arbitrary: i p)
  case Nil
  then show ?case by simp
next
  case (Cons src rest)
  obtain s ok where step:
    "AddInt64 (parity_at p (AssetID (valueSource.Value src)))
       (to_int64 (Amount (valueSource.Value src))) = (s, ok)"
    by (cases "AddInt64 (parity_at p (AssetID (valueSource.Value src)))
       (to_int64 (Amount (valueSource.Value src)))") 
  with Cons.prems have 
    rest: "addSources (i + 1) rest (parity_set p (AssetID (valueSource.Value src)) s) = Inr p'"
    by (auto split: if_splits)
  show ?case
    using Cons.IH [OF rest] Cons.prems(2) by (simp add: distinct_parity_set)
qed

lemma subDestinations_step:
  assumes "subDestinations i (dest # rest) p = Inr p'"
  obtains v where "map_of p (AssetID (ValueDestination.Value dest)) = Some v"
    and "sint (v - to_int64 (Amount (ValueDestination.Value dest)))
         = sint v - sint (to_int64 (Amount (ValueDestination.Value dest)))"
    and "subDestinations (i + 1) rest
           (parity_set p (AssetID (ValueDestination.Value dest))
              (v - to_int64 (Amount (ValueDestination.Value dest)))) = Inr p'"
proof -
  obtain v ok where look: "parity_lookup p (AssetID (ValueDestination.Value dest)) = (v, ok)"
    by (cases "parity_lookup p (AssetID (ValueDestination.Value dest))")
  obtain d ok' where sub: "SubInt64 v (to_int64 (Amount (ValueDestination.Value dest))) = (d, ok')"
    by (cases "SubInt64 v (to_int64 (Amount (ValueDestination.Value dest)))")
  from assms look sub have ok: "ok" and ok': "ok'"
    and rest: "subDestinations (i + 1) rest
                 (parity_set p (AssetID (ValueDestination.Value dest)) d) = Inr p'"
    by (auto split: if_splits)
  from look ok have "map_of p (AssetID (ValueDestination.Value dest)) = Some v"
    by (simp add: parity_lookup_ok)
  moreover from sub ok' have "d = v - to_int64 (Amount (ValueDestination.Value dest))"
    and "sint d = sint v - sint (to_int64 (Amount (ValueDestination.Value dest)))"
    using SubInt64_ok [of _ _ d] by simp_all
  ultimately show thesis
    using rest that by simp
qed

lemma subDestinations_total:
  "subDestinations i dests p = Inr p' \<Longrightarrow>
   \<forall>dest \<in> set dests. uint (Amount (ValueDestination.Value dest)) < 2 ^ 63 \<Longrightarrow>
     sint (parity_at p' a) = sint (parity_at p a) - spec_destinationTotal dests a"
proof (induction dests arbitrary: i p)
  case Nil
  then show ?case by (simp add: spec_destinationTotal_def)
next
  case (Cons dest rest)
  from Cons.prems(2) have small: "uint (Amount (ValueDestination.Value dest)) < 2 ^ 63"
    and smalls: "\<forall>dest \<in> set rest. uint (Amount (ValueDestination.Value dest)) < 2 ^ 63"
    by simp_all
  from Cons.prems(1) obtain v where v: "map_of p (AssetID (ValueDestination.Value dest)) = Some v"
    and s: "sint (v - to_int64 (Amount (ValueDestination.Value dest)))
         = sint v - sint (to_int64 (Amount (ValueDestination.Value dest)))"
    and rest: "subDestinations (i + 1) rest
           (parity_set p (AssetID (ValueDestination.Value dest))
              (v - to_int64 (Amount (ValueDestination.Value dest)))) = Inr p'"
    by (rule subDestinations_step)
  show ?case
    using Cons.IH [OF rest smalls] s parity_at_Some [OF v]
    by (auto simp: parity_at_set spec_destinationTotal_def to_int64_in_range [OF small])
qed

lemma subDestinations_keys:
  "subDestinations i dests p = Inr p' \<Longrightarrow> map fst p' = map fst p"
proof (induction dests arbitrary: i p)
  case Nil
  then show ?case by simp
next
  case (Cons dest rest)
  from Cons.prems obtain v where v: "map_of p (AssetID (ValueDestination.Value dest)) = Some v"
    and rest: "subDestinations (i + 1) rest
           (parity_set p (AssetID (ValueDestination.Value dest))
              (v - to_int64 (Amount (ValueDestination.Value dest)))) = Inr p'"
    by (rule subDestinations_step)
  from v have "AssetID (ValueDestination.Value dest) \<in> fst ` set p"
    by (meson domI domIff map_of_eq_None_iff)
  then show ?case
    using Cons.IH [OF rest] by (simp add: parity_set_def update_keys)
qed

lemma subDestinations_append:
  "subDestinations i (xs @ ys) p =
     (case subDestinations i xs p of
        Inl err \<Rightarrow> Inl err
      | Inr p' \<Rightarrow> subDestinations (i + length xs) ys p')"
  by (induction xs arbitrary: i p) (auto split: prod.splits sum.splits)

lemma checkBalance_None_iff:
  "checkBalance xs = None \<longleftrightarrow> (\<forall>(k, v) \<in> set xs. v = 0)"
  by (induction xs rule: checkBalance.induct) auto

lemma checkBalance_Some:
  "checkBalance xs = Some err \<Longrightarrow>
     \<exists>(k, v) \<in> set xs. v \<noteq> 0 \<and> err = WithDetail errUnbalanced (should_be_0 k v)"
  by (induction xs rule: checkBalance.induct) (auto split: if_splits)

lemma parity_all_zero_iff:
  assumes "distinct (map fst p)"
  shows "(\<forall>a. parity_at p a = 0) \<longleftrightarrow> (\<forall>(k, v) \<in> set p. v = 0)"
proof
  assume z: "\<forall>a. parity_at p a = 0"
  show "\<forall>(k, v) \<in> set p. v = 0"
  proof clarify
    fix k v assume "(k, v) \<in> set p"
    with assms have "map_of p k = Some v" by simp
    then have "parity_at p k = v" by (rule parity_at_Some)
    with z show "v = 0" by simp
  qed
next
  assume z: "\<forall>(k, v) \<in> set p. v = 0"
  show "\<forall>a. parity_at p a = 0"
  proof
    fix a
    show "parity_at p a = 0"
    proof (cases "map_of p a")
      case None
      then show ?thesis by (simp add: parity_at_def)
    next
      case (Some v)
      then have "(a, v) \<in> set p" by (rule map_of_SomeD)
      with z have "v = 0" by auto
      with Some show ?thesis by (simp add: parity_at_def)
    qed
  qed
qed

lemma checkSources_state:
  "checkSources E state i srcs = (r, state', ds) \<Longrightarrow> state' = state"
  by (induction srcs arbitrary: i r ds)
     (auto simp: Let_def split: prod.splits option.splits)

lemma checkDestinations_state:
  "checkDestinations E state i dests = (r, state', ds) \<Longrightarrow> state' = state"
  by (induction dests arbitrary: i r ds)
     (auto simp: Let_def split: prod.splits option.splits)

lemma Mux_CheckValid_past_descents:
  assumes "vm_Verify E (newTxVMContext (currentTx state) mux (Mux_body.Program (Mux.body mux))
                          (Mux_witness.Arguments (Mux.witness mux))) = None"
    and "fst (checkSources E state 0 (Sources (Mux.body mux))) = None"
    and "fst (checkDestinations E state 0 (Destinations (Mux.witness mux))) = None"
  shows "Mux_CheckValid E mux state = checkParity E mux state"
proof -
  obtain ds where s: "checkSources E state 0 (Sources (Mux.body mux)) = (None, state, ds)"
    using assms(2) checkSources_state [of E state 0 "Sources (Mux.body mux)"]
    by (cases "checkSources E state 0 (Sources (Mux.body mux))") auto
  obtain ds' where
    d: "checkDestinations E state 0 (Destinations (Mux.witness mux)) = (None, state, ds')"
    using assms(3) checkDestinations_state [of E state 0 "Destinations (Mux.witness mux)"]
    by (cases "checkDestinations E state 0 (Destinations (Mux.witness mux))") auto
  show ?thesis
    using assms(1) s d by (simp add: Mux_CheckValid_def Mux_CheckValid_run_def)
qed

lemmas mux_eval =
  Mux_CheckValid_def Mux_CheckValid_run_def checkParity_def checkExtHash_def
  newTxVMContext_def AddInt64_def SubInt64_def parity_at_def parity_lookup_def
  parity_set_def to_int64_def accepting_def rejecting_programs_def state_of_version_def
  assetA_def source_of_def destination_of_def mux_of_def Let_def

lemma checkParity_balanced:
  assumes add: "addSources 0 (Sources (Mux.body mux)) [] = Inr p0"
    and sub: "subDestinations 0 (Destinations (Mux.witness mux)) p0 = Inr p"
    and range: "mset (range_parity E p) = mset p"
  shows "(\<forall>a. parity_at p a = 0) \<Longrightarrow>
           checkParity E mux state = checkExtHash state (Mux_body.ExtHash (Mux.body mux))"
    and "\<not> (\<forall>a. parity_at p a = 0) \<Longrightarrow>
           \<exists>a. parity_at p a \<noteq> 0 \<and> checkParity E mux state =
                 Returns (Some (WithDetail errUnbalanced (should_be_0 a (parity_at p a))))"
proof -
  have "distinct (map fst p0)"
    using addSources_distinct [OF add] by simp
  then have dist: "distinct (map fst p)"
    using subDestinations_keys [OF sub] by simp
  have set: "set (range_parity E p) = set p"
    using range by (rule mset_eq_setD)
  {
    assume "\<forall>a. parity_at p a = 0"
    then have "checkBalance (range_parity E p) = None"
      using dist set by (simp add: parity_all_zero_iff checkBalance_None_iff)
    then show "checkParity E mux state = checkExtHash state (Mux_body.ExtHash (Mux.body mux))"
      using add sub by (simp add: checkParity_def)
  }
  {
    assume "\<not> (\<forall>a. parity_at p a = 0)"
    then have "checkBalance (range_parity E p) \<noteq> None"
      using dist set by (simp add: parity_all_zero_iff checkBalance_None_iff)
    then obtain err where err: "checkBalance (range_parity E p) = Some err"
      by blast
    then obtain k v where kv: "(k, v) \<in> set p" "v \<noteq> 0"
      and e: "err = WithDetail errUnbalanced (should_be_0 k v)"
      using checkBalance_Some [OF err] set by auto
    from kv(1) dist have "map_of p k = Some v" by simp
    then have "parity_at p k = v" by (rule parity_at_Some)
    moreover have "checkParity E mux state = Returns (Some err)"
      using add sub err by (simp add: checkParity_def)
    ultimately show "\<exists>a. parity_at p a \<noteq> 0 \<and> checkParity E mux state =
                 Returns (Some (WithDetail errUnbalanced (should_be_0 a (parity_at p a))))"
      using kv(2) e by blast
  }
qed

lemma checkExtHash_not_unbalanced:
  "checkExtHash state h \<noteq> Returns (Some (WithDetail e m))"
  by (simp add: checkExtHash_def split: option.splits)

section \<open>The balance check does not depend on the order of the map\<close>

text \<open>
  C9. The verdict of the zero-residual check is the same for any two orders in which the
  entries of a parity map are visited: it accepts under one order exactly when it accepts
  under the other.
\<close>

theorem checkBalance_order_independent:
  assumes "mset xs = mset parity" and "mset ys = mset parity"
  shows "checkBalance xs = None \<longleftrightarrow> checkBalance ys = None"
proof -
  have "set xs = set ys"
    using assms by (metis mset_eq_setD)
  then show ?thesis
    by (simp add: checkBalance_None_iff)
qed

theorem checkBalance_order_independent_witness:
  "mset [(2 :: AssetID, 0 :: int64), (1, 5)] = mset [(1, 5), (2, 0)]
   \<and> mset [(1 :: AssetID, 5 :: int64), (2, 0)] = mset [(1, 5), (2, 0)]
   \<and> (checkBalance [(2, 0), (1, 5)] = None \<longleftrightarrow> checkBalance [(1, 5), (2, 0)] = None)
   \<and> checkBalance [(2, 0), (1, 5)] = Some (WithDetail errUnbalanced (should_be_0 1 5))"
proof -
  have a: "mset [(2 :: AssetID, 0 :: int64), (1, 5)] = mset [(1, 5), (2, 0)]"
    by simp
  have b: "mset [(1 :: AssetID, 5 :: int64), (2, 0)] = mset [(1, 5), (2, 0)]"
    by simp
  show ?thesis
    using a b checkBalance_order_independent [OF a b] by simp
qed

section \<open>Which errors the parts of \<open>Mux.CheckValid\<close> return\<close>

lemma addSources_Inl:
  "addSources i srcs p = Inl err \<Longrightarrow> \<exists>m. err = WithDetail errOverflow m"
proof (induction srcs arbitrary: i p)
  case Nil
  then show ?case by simp
next
  case (Cons src rest)
  then show ?case
    by (auto split: prod.splits if_splits)
qed

lemma subDestinations_Inl:
  "subDestinations i dests p = Inl err \<Longrightarrow>
     (\<exists>j a. err = WithDetail errNoSource (has_no_corresponding_source j a)
            \<and> a \<notin> fst ` set p)
     \<or> (\<exists>m. err = WithDetail errOverflow m)"
proof (induction dests arbitrary: i p)
  case Nil
  then show ?case by simp
next
  case (Cons dest rest)
  obtain v ok where look: "parity_lookup p (AssetID (ValueDestination.Value dest)) = (v, ok)"
    by (cases "parity_lookup p (AssetID (ValueDestination.Value dest))")
  obtain d ok' where sub: "SubInt64 v (to_int64 (Amount (ValueDestination.Value dest))) = (d, ok')"
    by (cases "SubInt64 v (to_int64 (Amount (ValueDestination.Value dest)))")
  show ?case
  proof (cases ok)
    case False
    with look have "map_of p (AssetID (ValueDestination.Value dest)) = None"
      using parity_lookup_missing [of p "AssetID (ValueDestination.Value dest)"] by simp
    then have "AssetID (ValueDestination.Value dest) \<notin> fst ` set p"
      by (simp add: map_of_eq_None_iff)
    with Cons.prems look False show ?thesis by auto
  next
    case True
    note ok = this
    show ?thesis
    proof (cases ok')
      case False
      with Cons.prems look sub ok show ?thesis by auto
    next
      case True
      with Cons.prems look sub ok have
        rest: "subDestinations (i + 1) rest
                 (parity_set p (AssetID (ValueDestination.Value dest)) d) = Inl err"
        by simp
      from look ok have "map_of p (AssetID (ValueDestination.Value dest)) = Some v"
        by (simp add: parity_lookup_ok)
      then have "AssetID (ValueDestination.Value dest) \<in> fst ` set p"
        by (meson domI domIff map_of_eq_None_iff)
      then have "map fst (parity_set p (AssetID (ValueDestination.Value dest)) d) = map fst p"
        by (simp add: parity_set_def update_keys)
      then have "fst ` set (parity_set p (AssetID (ValueDestination.Value dest)) d) = fst ` set p"
        by (metis list.set_map)
      with Cons.IH [OF rest] show ?thesis by simp
    qed
  qed
qed

lemma checkSources_error:
  "checkSources E state i srcs = (Some err, state', ds) \<Longrightarrow> \<exists>e m. err = Wrap e m"
  by (induction srcs arbitrary: i ds)
     (auto simp: Let_def split: prod.splits option.splits)

lemma checkDestinations_error:
  "checkDestinations E state i dests = (Some err, state', ds) \<Longrightarrow> \<exists>e m. err = Wrap e m"
  by (induction dests arbitrary: i ds)
     (auto simp: Let_def split: prod.splits option.splits)

lemma Mux_CheckValid_cases:
  "(\<exists>e m. Mux_CheckValid E mux state = Returns (Some (Wrap e m)))
   \<or> Mux_CheckValid E mux state = checkParity E mux state"
proof (cases "vm_Verify E (newTxVMContext (currentTx state) mux (Mux_body.Program (Mux.body mux))
                          (Mux_witness.Arguments (Mux.witness mux)))")
  case (Some err)
  then show ?thesis
    by (simp add: Mux_CheckValid_def Mux_CheckValid_run_def)
next
  case None
  note verify = this
  obtain r st ds where s: "checkSources E state 0 (Sources (Mux.body mux)) = (r, st, ds)"
    by (cases "checkSources E state 0 (Sources (Mux.body mux))")
  obtain r' st' ds' where
    d: "checkDestinations E state 0 (Destinations (Mux.witness mux)) = (r', st', ds')"
    by (cases "checkDestinations E state 0 (Destinations (Mux.witness mux))")
  have st: "st = state" using s by (rule checkSources_state)
  have st': "st' = state" using d by (rule checkDestinations_state)
  show ?thesis
  proof (cases r)
    case (Some err)
    with s obtain e m where "err = Wrap e m"
      using checkSources_error by blast
    with verify s Some show ?thesis
      by (simp add: Mux_CheckValid_def Mux_CheckValid_run_def)
  next
    case None
    note r = this
    show ?thesis
    proof (cases r')
      case (Some err)
      with d obtain e m where "err = Wrap e m"
        using checkDestinations_error by blast
      with verify s d r st Some show ?thesis
        by (simp add: Mux_CheckValid_def Mux_CheckValid_run_def)
    next
      case None
      with verify s d r st st' show ?thesis
        by (simp add: Mux_CheckValid_def Mux_CheckValid_run_def)
    qed
  qed
qed

lemma checkParity_not_NoSource:
  assumes "src \<in> set (Sources (Mux.body mux))"
  shows "checkParity E mux state \<noteq>
           Returns (Some (WithDetail errNoSource
              (has_no_corresponding_source i (AssetID (valueSource.Value src)))))"
proof (cases "addSources 0 (Sources (Mux.body mux)) []")
  case (Inl err)
  then show ?thesis
    using addSources_Inl [OF Inl] by (auto simp: checkParity_def)
next
  case (Inr p0)
  have "AssetID (valueSource.Value src) \<in> dom (map_of p0)"
    using addSources_dom [OF Inr] assms by auto
  then have mem: "AssetID (valueSource.Value src) \<in> fst ` set p0"
    by (simp add: dom_map_of_conv_image_fst)
  show ?thesis
  proof (cases "subDestinations 0 (Destinations (Mux.witness mux)) p0")
    case (Inl err)
    with Inr have "checkParity E mux state = Returns (Some err)"
      by (simp add: checkParity_def)
    then show ?thesis
      using subDestinations_Inl [OF Inl] mem by auto
  next
    case (Inr p)
    show ?thesis
    proof (cases "checkBalance (range_parity E p)")
      case None
      with \<open>addSources 0 (Sources (Mux.body mux)) [] = Inr p0\<close> Inr show ?thesis
        by (simp add: checkParity_def checkExtHash_not_unbalanced)
    next
      case (Some err)
      with \<open>addSources 0 (Sources (Mux.body mux)) [] = Inr p0\<close> Inr
      have "checkParity E mux state = Returns (Some err)"
        by (simp add: checkParity_def)
      then show ?thesis
        using checkBalance_Some [OF Some] by auto
    qed
  qed
qed


lemma subDestinations_first:
  "subDestinations i (dest # rest) p =
     (case map_of p (AssetID (ValueDestination.Value dest)) of
        None \<Rightarrow> Inl (WithDetail errNoSource
                   (has_no_corresponding_source i (AssetID (ValueDestination.Value dest))))
      | Some v \<Rightarrow>
          if - (2 ^ 63) \<le> sint v - sint (to_int64 (Amount (ValueDestination.Value dest)))
             \<and> sint v - sint (to_int64 (Amount (ValueDestination.Value dest))) < 2 ^ 63
          then subDestinations (i + 1) rest
                 (parity_set p (AssetID (ValueDestination.Value dest))
                    (v - to_int64 (Amount (ValueDestination.Value dest))))
          else Inl (WithDetail errOverflow
                 (subtracting_underflows (Amount (ValueDestination.Value dest))
                    (AssetID (ValueDestination.Value dest)) i v)))"
  by (simp add: parity_lookup_def SubInt64_def split: option.splits)

lemma checkParity_at_destination:
  assumes add: "addSources 0 (Sources (Mux.body mux)) [] = Inr p0"
    and split: "Destinations (Mux.witness mux) = before @ dest # after"
    and sub: "subDestinations 0 before p0 = Inr p"
    and fails: "subDestinations (length before) (dest # after) p = Inl err"
  shows "checkParity E mux state = Returns (Some err)"
  using add split sub fails by (simp add: checkParity_def subDestinations_append)

lemma addSources_append:
  "addSources i (xs @ ys) p =
     (case addSources i xs p of
        Inl err \<Rightarrow> Inl err
      | Inr p' \<Rightarrow> addSources (i + length xs) ys p')"
  by (induction xs arbitrary: i p) (auto split: prod.splits sum.splits)

lemma addSources_first:
  "addSources i (src # rest) p =
     (if - (2 ^ 63) \<le> sint (parity_at p (AssetID (valueSource.Value src)))
                      + sint (to_int64 (Amount (valueSource.Value src)))
         \<and> sint (parity_at p (AssetID (valueSource.Value src)))
             + sint (to_int64 (Amount (valueSource.Value src))) < 2 ^ 63
      then addSources (i + 1) rest
             (parity_set p (AssetID (valueSource.Value src))
                (parity_at p (AssetID (valueSource.Value src))
                 + to_int64 (Amount (valueSource.Value src))))
      else Inl (WithDetail errOverflow
             (adding_overflows (Amount (valueSource.Value src))
                (AssetID (valueSource.Value src)) i
                (parity_at p (AssetID (valueSource.Value src))))))"
  by (simp add: AddInt64_def)

lemma addSources_overflow:
  assumes split: "srcs = before @ src # after"
    and pre: "addSources 0 before [] = Inr p"
    and over: "\<not> (- (2 ^ 63) \<le> sint (parity_at p (AssetID (valueSource.Value src)))
                      + sint (to_int64 (Amount (valueSource.Value src)))
         \<and> sint (parity_at p (AssetID (valueSource.Value src)))
             + sint (to_int64 (Amount (valueSource.Value src))) < 2 ^ 63)"
  shows "addSources 0 srcs [] =
           Inl (WithDetail errOverflow
             (adding_overflows (Amount (valueSource.Value src))
                (AssetID (valueSource.Value src)) (length before)
                (parity_at p (AssetID (valueSource.Value src)))))"
proof -
  have "addSources (length before) (src # after) p =
           Inl (WithDetail errOverflow
             (adding_overflows (Amount (valueSource.Value src))
                (AssetID (valueSource.Value src)) (length before)
                (parity_at p (AssetID (valueSource.Value src)))))"
    using over by (auto simp del: addSources.simps simp add: addSources_first)
  then show ?thesis
    using pre by (simp add: split addSources_append)
qed

section \<open>The balance of a Mux\<close>

lemma checkParity_of_parity:
  assumes add: "addSources 0 (Sources (Mux.body mux)) [] = Inr p0"
    and sub: "subDestinations 0 (Destinations (Mux.witness mux)) p0 = Inr p"
    and range: "mset (range_parity E p) = mset p"
  shows "checkParity E mux state = checkExtHash state (Mux_body.ExtHash (Mux.body mux))
         \<longleftrightarrow> (\<forall>a. parity_at p a = 0)"
  using checkParity_balanced [OF add sub range, of state] checkExtHash_not_unbalanced
  by metis

lemma checkParity_not_computed:
  assumes "addSources 0 (Sources (Mux.body mux)) [] = Inl err
           \<or> (\<exists>p0. addSources 0 (Sources (Mux.body mux)) [] = Inr p0
                  \<and> subDestinations 0 (Destinations (Mux.witness mux)) p0 = Inl err)"
  shows "checkParity E mux state \<noteq> checkExtHash state (Mux_body.ExtHash (Mux.body mux))"
proof -
  from assms have r: "checkParity E mux state = Returns (Some err)"
    by (auto simp: checkParity_def)
  from assms have "\<exists>e m. err = WithDetail e m"
    using addSources_Inl subDestinations_Inl by blast
  with r show ?thesis
    using checkExtHash_not_unbalanced by metis
qed


text \<open>
  While no amount exceeds the greatest \<open>int64\<close>, the loops compute what the spec
  describes. Take a Mux whose program, sources and destinations validate and whose
  amounts are all below \<open>2^63\<close>. \<open>CheckValid\<close> gets past the balance check (and
  returns what the check of the extension hash returns) exactly when the two loops
  compute the parity to their end and the parity of every asset is zero. Whenever the
  loops compute the parity, the parity of every asset is the total of its source amounts
  minus the total of its destination amounts, and if some parity is not zero,
  \<open>CheckValid\<close> returns \<open>errUnbalanced\<close> with an asset of nonzero parity and that
  parity. The \<open>range\<close> over the map visits every entry once.
\<close>

lemma Mux_balance_in_range:
  assumes verify: "vm_Verify E (newTxVMContext (currentTx state) mux
                     (Mux_body.Program (Mux.body mux))
                     (Mux_witness.Arguments (Mux.witness mux))) = None"
    and srcs: "fst (checkSources E state 0 (Sources (Mux.body mux))) = None"
    and dests: "fst (checkDestinations E state 0 (Destinations (Mux.witness mux))) = None"
    and range: "\<forall>p. mset (range_parity E p) = mset p"
    and small_sources:
      "\<forall>src \<in> set (Sources (Mux.body mux)). uint (Amount (valueSource.Value src)) < 2 ^ 63"
    and small_destinations:
      "\<forall>dest \<in> set (Destinations (Mux.witness mux)).
          uint (Amount (ValueDestination.Value dest)) < 2 ^ 63"
  shows "(Mux_CheckValid E mux state = checkExtHash state (Mux_body.ExtHash (Mux.body mux))
          \<longleftrightarrow> (\<exists>p0 p. addSources 0 (Sources (Mux.body mux)) [] = Inr p0
                    \<and> subDestinations 0 (Destinations (Mux.witness mux)) p0 = Inr p
                    \<and> (\<forall>a. parity_at p a = 0)))
       \<and> (\<forall>p0 p. addSources 0 (Sources (Mux.body mux)) [] = Inr p0
                  \<and> subDestinations 0 (Destinations (Mux.witness mux)) p0 = Inr p \<longrightarrow>
             (\<forall>a. sint (parity_at p a) =
                    spec_sourceTotal (Sources (Mux.body mux)) a
                    - spec_destinationTotal (Destinations (Mux.witness mux)) a)
             \<and> (\<not> (\<forall>a. parity_at p a = 0) \<longrightarrow>
                  (\<exists>a. parity_at p a \<noteq> 0 \<and> Mux_CheckValid E mux state =
                     Returns (Some (WithDetail errUnbalanced
                                      (should_be_0 a (parity_at p a)))))))"
proof -
  have run: "Mux_CheckValid E mux state = checkParity E mux state"
    using verify srcs dests by (rule Mux_CheckValid_past_descents)
  have range': "mset (range_parity E p) = mset p" for p
    using range by simp
  have iff: "Mux_CheckValid E mux state = checkExtHash state (Mux_body.ExtHash (Mux.body mux))
          \<longleftrightarrow> (\<exists>p0 p. addSources 0 (Sources (Mux.body mux)) [] = Inr p0
                    \<and> subDestinations 0 (Destinations (Mux.witness mux)) p0 = Inr p
                    \<and> (\<forall>a. parity_at p a = 0))"
  proof (cases "addSources 0 (Sources (Mux.body mux)) []")
    case (Inl err)
    then show ?thesis
      using checkParity_not_computed [of mux err E state] run by simp
  next
    case (Inr p0)
    note add = this
    show ?thesis
    proof (cases "subDestinations 0 (Destinations (Mux.witness mux)) p0")
      case (Inl err)
      then show ?thesis
        using checkParity_not_computed [of mux err E state] run add by simp
    next
      case (Inr p)
      then show ?thesis
        using checkParity_of_parity [OF add Inr range', of state] run add by simp
    qed
  qed
  have each: "(\<forall>a. sint (parity_at p a) =
                    spec_sourceTotal (Sources (Mux.body mux)) a
                    - spec_destinationTotal (Destinations (Mux.witness mux)) a)
             \<and> (\<not> (\<forall>a. parity_at p a = 0) \<longrightarrow>
                  (\<exists>a. parity_at p a \<noteq> 0 \<and> Mux_CheckValid E mux state =
                     Returns (Some (WithDetail errUnbalanced
                                      (should_be_0 a (parity_at p a))))))"
    if add: "addSources 0 (Sources (Mux.body mux)) [] = Inr p0"
      and sub: "subDestinations 0 (Destinations (Mux.witness mux)) p0 = Inr p" for p0 p
  proof
    show "\<forall>a. sint (parity_at p a) =
               spec_sourceTotal (Sources (Mux.body mux)) a
               - spec_destinationTotal (Destinations (Mux.witness mux)) a"
      using addSources_total [OF add small_sources]
        subDestinations_total [OF sub small_destinations]
      by (simp add: parity_at_def)
  next
    show "\<not> (\<forall>a. parity_at p a = 0) \<longrightarrow>
            (\<exists>a. parity_at p a \<noteq> 0 \<and> Mux_CheckValid E mux state =
                 Returns (Some (WithDetail errUnbalanced (should_be_0 a (parity_at p a)))))"
      using checkParity_balanced(2) [OF add sub range'] run by simp
  qed
  show ?thesis
    using iff each by blast
qed


text \<open>
  The scenario of the spec: 100 units into 60 and 40 pass, into 60 and 41 give the
  residual \<open>-1\<close>.
\<close>

lemma Mux_scenario:
  "Mux_CheckValid accepting
       (mux_of [source_of assetA 100] [destination_of assetA 60, destination_of assetA 40] 0)
       (state_of_version 1) = Returns None
   \<and> Mux_CheckValid accepting
       (mux_of [source_of assetA 100] [destination_of assetA 60, destination_of assetA 41] 0)
       (state_of_version 1)
       = Returns (Some (WithDetail errUnbalanced (should_be_0 assetA (- 1))))"
  by (simp add: mux_eval)

text \<open>
  C1. The amounts enter the parity as \<open>int64(Amount)\<close>, and the conversion is not
  checked, so the parity is not the total of the source amounts minus the total of the
  destination amounts once an amount exceeds the greatest \<open>int64\<close>. The Mux below has
  a program, sources and destinations that validate, two sources of \<open>2^64 - 1\<close> and
  \<open>1\<close> units of one asset and no destination: the residual of the asset is \<open>2^64\<close>,
  the loops compute the parity \<open>0\<close>, and \<open>CheckValid\<close> gets past the balance check
  and returns \<open>nil\<close>.
\<close>

theorem Mux_balance_wrapped_amounts:
  "vm_Verify accepting (newTxVMContext (currentTx (state_of_version 1))
       (mux_of [source_of assetA 18446744073709551615, source_of assetA 1] [] 0)
       (Mux_body.Program (Mux.body
          (mux_of [source_of assetA 18446744073709551615, source_of assetA 1] [] 0)))
       (Mux_witness.Arguments (Mux.witness
          (mux_of [source_of assetA 18446744073709551615, source_of assetA 1] [] 0))))
     = None
   \<and> fst (checkSources accepting (state_of_version 1) 0
            [source_of assetA 18446744073709551615, source_of assetA 1]) = None
   \<and> fst (checkDestinations accepting (state_of_version 1) 0 []) = None
   \<and> spec_sourceTotal [source_of assetA 18446744073709551615, source_of assetA 1] assetA
       - spec_destinationTotal [] assetA = 18446744073709551616
   \<and> addSources 0 [source_of assetA 18446744073709551615, source_of assetA 1] []
       = Inr [(assetA, 0)]
   \<and> Mux_CheckValid accepting
       (mux_of [source_of assetA 18446744073709551615, source_of assetA 1] [] 0)
       (state_of_version 1) = Returns None"
  by (simp add: mux_eval spec_sourceTotal_def spec_destinationTotal_def)

section \<open>Destinations without a source\<close>

text \<open>
  When some source of a Mux carries an asset, \<open>CheckValid\<close> never returns
  \<open>errNoSource\<close> for that asset, whatever the destination index: the asset has an
  entry in the parity after the sources, and keeps it after any number of destinations,
  also when they have brought it to zero.
\<close>

lemma sourced_asset_keeps_entry:
  assumes "src \<in> set (Sources (Mux.body mux))"
  shows "Mux_CheckValid E mux state \<noteq>
           Returns (Some (WithDetail errNoSource
              (has_no_corresponding_source i (AssetID (valueSource.Value src)))))
       \<and> (\<forall>p0 p before after.
             addSources 0 (Sources (Mux.body mux)) [] = Inr p0
             \<and> Destinations (Mux.witness mux) = before @ after
             \<and> subDestinations 0 before p0 = Inr p
             \<longrightarrow> map_of p (AssetID (valueSource.Value src)) \<noteq> None)"
proof
  show "Mux_CheckValid E mux state \<noteq>
           Returns (Some (WithDetail errNoSource
              (has_no_corresponding_source i (AssetID (valueSource.Value src)))))"
    using Mux_CheckValid_cases [of E mux state] checkParity_not_NoSource [OF assms, of E state i]
    by auto
next
  show "\<forall>p0 p before after.
             addSources 0 (Sources (Mux.body mux)) [] = Inr p0
             \<and> Destinations (Mux.witness mux) = before @ after
             \<and> subDestinations 0 before p0 = Inr p
             \<longrightarrow> map_of p (AssetID (valueSource.Value src)) \<noteq> None"
  proof (intro allI impI, elim conjE)
    fix p0 p before after
    assume add: "addSources 0 (Sources (Mux.body mux)) [] = Inr p0"
      and sub: "subDestinations 0 before p0 = Inr p"
    have "AssetID (valueSource.Value src) \<in> dom (map_of p0)"
      using addSources_dom [OF add] assms by auto
    then have "AssetID (valueSource.Value src) \<in> fst ` set p0"
      by (simp add: dom_map_of_conv_image_fst)
    then have "AssetID (valueSource.Value src) \<in> fst ` set p"
      using subDestinations_keys [OF sub] by (metis list.set_map)
    then show "map_of p (AssetID (valueSource.Value src)) \<noteq> None"
      by (simp add: map_of_eq_None_iff)
  qed
qed

text \<open>
  One unit drawn twice: the second destination finds the entry at zero, and the Mux is
  unbalanced by \<open>-1\<close>.
\<close>

lemma overdraw_by_one:
  "Mux_CheckValid accepting
       (mux_of [source_of assetA 1] [destination_of assetA 1, destination_of assetA 1] 0)
       (state_of_version 1)
       = Returns (Some (WithDetail errUnbalanced (should_be_0 assetA (- 1))))"
  by (simp add: mux_eval)

text \<open>
  C10. Over-drawing an asset that has a source does not always surface. The Mux below has
  one source of \<open>1\<close> unit of an asset and two destinations of \<open>2^64 - 1\<close> and \<open>2\<close>
  units of it, \<open>2^64 + 1\<close> in all. The first destination is subtracted as \<open>-1\<close>, the
  parity goes from \<open>1\<close> to \<open>2\<close> and then to \<open>0\<close>, and \<open>CheckValid\<close> returns
  \<open>nil\<close>: neither \<open>errUnbalanced\<close> nor an underflow error.
\<close>

theorem Mux_overdraw_undetected:
  "source_of assetA 1 \<in> set (Sources (Mux.body
       (mux_of [source_of assetA 1]
          [destination_of assetA 18446744073709551615, destination_of assetA 2] 0)))
   \<and> spec_sourceTotal [source_of assetA 1] assetA = 1
   \<and> spec_destinationTotal
         [destination_of assetA 18446744073709551615, destination_of assetA 2] assetA
       = 18446744073709551617
   \<and> subDestinations 0
         [destination_of assetA 18446744073709551615, destination_of assetA 2] [(assetA, 1)]
       = Inr [(assetA, 0)]
   \<and> Mux_CheckValid accepting
       (mux_of [source_of assetA 1]
          [destination_of assetA 18446744073709551615, destination_of assetA 2] 0)
       (state_of_version 1) = Returns None"
  by (simp add: mux_eval spec_sourceTotal_def spec_destinationTotal_def)

text \<open>
  In a Mux whose program, sources and destinations validate and whose sources add up
  without overflow, take a destination that is reached (the destinations before it were
  subtracted without error, leaving the parity \<open>p\<close>). If its asset has no entry in
  \<open>p\<close>, which is the case exactly when no source carries the asset, \<open>CheckValid\<close>
  returns \<open>errNoSource\<close> with the index and the asset of the destination. If the asset
  has the entry \<open>v\<close> and \<open>v\<close> minus the amount as the code converts it, that is
  \<open>int64(Amount)\<close>, is not a signed 64-bit number, \<open>CheckValid\<close> returns
  \<open>errOverflow\<close>.
\<close>

lemma Mux_destination_reached:
  assumes verify: "vm_Verify E (newTxVMContext (currentTx state) mux
                     (Mux_body.Program (Mux.body mux))
                     (Mux_witness.Arguments (Mux.witness mux))) = None"
    and srcs: "fst (checkSources E state 0 (Sources (Mux.body mux))) = None"
    and dests: "fst (checkDestinations E state 0 (Destinations (Mux.witness mux))) = None"
    and add: "addSources 0 (Sources (Mux.body mux)) [] = Inr p0"
    and split: "Destinations (Mux.witness mux) = before @ dest # after"
    and sub: "subDestinations 0 before p0 = Inr p"
  shows "(map_of p (AssetID (ValueDestination.Value dest)) = None \<longrightarrow>
            Mux_CheckValid E mux state =
              Returns (Some (WithDetail errNoSource
                 (has_no_corresponding_source (length before)
                    (AssetID (ValueDestination.Value dest))))))
       \<and> (\<forall>v. map_of p (AssetID (ValueDestination.Value dest)) = Some v
              \<and> \<not> (- (2 ^ 63) \<le> sint v - sint (to_int64 (Amount (ValueDestination.Value dest)))
                   \<and> sint v - sint (to_int64 (Amount (ValueDestination.Value dest))) < 2 ^ 63)
              \<longrightarrow> Mux_CheckValid E mux state =
                    Returns (Some (WithDetail errOverflow
                       (subtracting_underflows (Amount (ValueDestination.Value dest))
                          (AssetID (ValueDestination.Value dest)) (length before) v))))
       \<and> (map_of p (AssetID (ValueDestination.Value dest)) = None \<longleftrightarrow>
            (\<forall>src \<in> set (Sources (Mux.body mux)).
               AssetID (valueSource.Value src) \<noteq> AssetID (ValueDestination.Value dest)))"
proof -
  have run: "Mux_CheckValid E mux state = checkParity E mux state"
    using verify srcs dests by (rule Mux_CheckValid_past_descents)
  have none: "map_of p (AssetID (ValueDestination.Value dest)) = None \<Longrightarrow>
            Mux_CheckValid E mux state =
              Returns (Some (WithDetail errNoSource
                 (has_no_corresponding_source (length before)
                    (AssetID (ValueDestination.Value dest)))))"
  proof -
    assume "map_of p (AssetID (ValueDestination.Value dest)) = None"
    then have "subDestinations (length before) (dest # after) p =
                 Inl (WithDetail errNoSource
                        (has_no_corresponding_source (length before)
                           (AssetID (ValueDestination.Value dest))))"
      by (simp del: subDestinations.simps add: subDestinations_first)
    then show ?thesis
      using checkParity_at_destination [OF add split sub] run by simp
  qed
  have under: "\<And>v. map_of p (AssetID (ValueDestination.Value dest)) = Some v \<Longrightarrow>
       \<not> (- (2 ^ 63) \<le> sint v - sint (to_int64 (Amount (ValueDestination.Value dest)))
                   \<and> sint v - sint (to_int64 (Amount (ValueDestination.Value dest))) < 2 ^ 63)
       \<Longrightarrow> Mux_CheckValid E mux state =
                    Returns (Some (WithDetail errOverflow
                       (subtracting_underflows (Amount (ValueDestination.Value dest))
                          (AssetID (ValueDestination.Value dest)) (length before) v)))"
  proof -
    fix v
    assume "map_of p (AssetID (ValueDestination.Value dest)) = Some v"
      and "\<not> (- (2 ^ 63) \<le> sint v - sint (to_int64 (Amount (ValueDestination.Value dest)))
                   \<and> sint v - sint (to_int64 (Amount (ValueDestination.Value dest))) < 2 ^ 63)"
    then have "subDestinations (length before) (dest # after) p =
                 Inl (WithDetail errOverflow
                       (subtracting_underflows (Amount (ValueDestination.Value dest))
                          (AssetID (ValueDestination.Value dest)) (length before) v))"
      by (auto simp del: subDestinations.simps simp add: subDestinations_first)
    then show "Mux_CheckValid E mux state =
                    Returns (Some (WithDetail errOverflow
                       (subtracting_underflows (Amount (ValueDestination.Value dest))
                          (AssetID (ValueDestination.Value dest)) (length before) v)))"
      using checkParity_at_destination [OF add split sub] run by simp
  qed
  have "dom (map_of p) = dom (map_of p0)"
    using subDestinations_keys [OF sub]
    by (metis dom_map_of_conv_image_fst list.set_map)
  then have "dom (map_of p) = (\<lambda>src. AssetID (valueSource.Value src)) ` set (Sources (Mux.body mux))"
    using addSources_dom [OF add] by simp
  then have keys: "map_of p (AssetID (ValueDestination.Value dest)) = None \<longleftrightarrow>
            (\<forall>src \<in> set (Sources (Mux.body mux)).
               AssetID (valueSource.Value src) \<noteq> AssetID (ValueDestination.Value dest))"
    by (metis (mono_tags, lifting) domIff image_iff)
  show ?thesis
    using none under keys by blast
qed

text \<open>
  C6. The subtraction of a destination is checked on \<open>int64(Amount)\<close>, not on the
  amount. With one source of \<open>1\<close> unit, a destination of \<open>2^64 - 1\<close> units takes the
  parity below the least \<open>int64\<close>, yet it is subtracted as \<open>-1\<close>: the parity becomes
  \<open>2\<close>, no error is returned, and with a second destination of \<open>2\<close> units
  \<open>CheckValid\<close> returns \<open>nil\<close>. In the other direction, with a source of \<open>0\<close>
  units a destination of \<open>2^63\<close> units leaves \<open>-2^63\<close>, which is a signed 64-bit
  number, yet \<open>errOverflow\<close> is returned.
\<close>

theorem Mux_destination_above_MaxInt64:
  "addSources 0 [source_of assetA 1] [] = Inr [(assetA, 1)]
   \<and> sint (1 :: int64)
       - uint (Amount (ValueDestination.Value (destination_of assetA 18446744073709551615)))
       < - (2 ^ 63)
   \<and> subDestinations 0 [destination_of assetA 18446744073709551615] [(assetA, 1)]
       = Inr [(assetA, 2)]
   \<and> Mux_CheckValid accepting
       (mux_of [source_of assetA 1]
          [destination_of assetA 18446744073709551615, destination_of assetA 2] 0)
       (state_of_version 1) = Returns None
   \<and> addSources 0 [source_of assetA 0] [] = Inr [(assetA, 0)]
   \<and> sint (0 :: int64)
       - uint (Amount (ValueDestination.Value (destination_of assetA 9223372036854775808)))
       = - (2 ^ 63)
   \<and> Mux_CheckValid accepting
       (mux_of [source_of assetA 0] [destination_of assetA 9223372036854775808] 0)
       (state_of_version 1)
       = Returns (Some (WithDetail errOverflow
           (subtracting_underflows 9223372036854775808 assetA 0 0)))"
  by (simp add: mux_eval)

section \<open>Source amounts above the greatest \<open>int64\<close>\<close>

text \<open>
  C2. The amount of a source enters the sum as \<open>int64(src.Value.Amount)\<close>, and the
  conversion is not checked. A single source of \<open>2^63\<close> units is added as \<open>-2^63\<close>
  without an overflow error (the Mux is then reported unbalanced with that residual), and
  two sources of \<open>2^64 - 1\<close> and \<open>1\<close> units, without any destination, are added as
  \<open>-1\<close> and \<open>1\<close>: the Mux validates.
\<close>

theorem Mux_source_above_MaxInt64:
  "Mux_CheckValid accepting (mux_of [source_of assetA 9223372036854775808] [] 0)
     (state_of_version 1)
     = Returns (Some (WithDetail errUnbalanced (should_be_0 assetA (- 9223372036854775808))))
   \<and> sint (- 9223372036854775808 :: int64) = - (2 ^ 63)
   \<and> Mux_CheckValid accepting
       (mux_of [source_of assetA 18446744073709551615, source_of assetA 1] [] 0)
       (state_of_version 1)
     = Returns None"
  by (simp add: mux_eval)

section \<open>The validation state is copied for each descent\<close>

lemma run_verify_fails:
  "vm_Verify E (newTxVMContext (currentTx state) mux
       (Mux_body.Program (Mux.body mux)) (Mux_witness.Arguments (Mux.witness mux))) = Some err
   \<Longrightarrow> Mux_CheckValid_run E mux state = (Returns (Some (Wrap err checking_mux_program)), state, [])"
  by (simp add: Mux_CheckValid_run_def)

lemma run_source_fails:
  "vm_Verify E (newTxVMContext (currentTx state) mux
       (Mux_body.Program (Mux.body mux)) (Mux_witness.Arguments (Mux.witness mux))) = None
   \<Longrightarrow> checkSources E state 0 (Sources (Mux.body mux)) = (Some err, st1, ds1)
   \<Longrightarrow> Mux_CheckValid_run E mux state = (Returns (Some err), st1, ds1)"
  by (simp add: Mux_CheckValid_run_def)

lemma run_destination_fails:
  "vm_Verify E (newTxVMContext (currentTx state) mux
       (Mux_body.Program (Mux.body mux)) (Mux_witness.Arguments (Mux.witness mux))) = None
   \<Longrightarrow> checkSources E state 0 (Sources (Mux.body mux)) = (None, st1, ds1)
   \<Longrightarrow> checkDestinations E st1 0 (Destinations (Mux.witness mux)) = (Some err, st2, ds2)
   \<Longrightarrow> Mux_CheckValid_run E mux state = (Returns (Some err), st2, ds1 @ ds2)"
  by (simp add: Mux_CheckValid_run_def)

lemma run_descents_pass:
  "vm_Verify E (newTxVMContext (currentTx state) mux
       (Mux_body.Program (Mux.body mux)) (Mux_witness.Arguments (Mux.witness mux))) = None
   \<Longrightarrow> checkSources E state 0 (Sources (Mux.body mux)) = (None, st1, ds1)
   \<Longrightarrow> checkDestinations E st1 0 (Destinations (Mux.witness mux)) = (None, st2, ds2)
   \<Longrightarrow> Mux_CheckValid_run E mux state = (checkParity E mux st2, st2, ds1 @ ds2)"
  by (simp add: Mux_CheckValid_run_def)

lemma checkSources_log:
  "checkSources E state i srcs = (r, state', ds) \<Longrightarrow>
     take (length ds)
       (map (\<lambda>(k, src). SourceDescent k src (state\<lparr>sourcePosition := word_of_nat k\<rparr>))
            (enumerate i srcs)) = ds
     \<and> length ds \<le> length srcs
     \<and> (r = None \<longrightarrow> length ds = length srcs)"
  by (induction srcs arbitrary: i r ds)
     (auto simp: Let_def split: prod.splits option.splits)

lemma checkDestinations_log:
  "checkDestinations E state i dests = (r, state', ds) \<Longrightarrow>
     take (length ds)
       (map (\<lambda>(k, dest). DestDescent k dest (state\<lparr>destPosition := word_of_nat k\<rparr>))
            (enumerate i dests)) = ds
     \<and> length ds \<le> length dests
     \<and> (r = None \<longrightarrow> length ds = length dests)"
  by (induction dests arbitrary: i r ds)
     (auto simp: Let_def split: prod.splits option.splits)

lemma in_set_take_enumerate:
  assumes "d \<in> set (take n (map f (enumerate 0 xs)))"
  shows "\<exists>k. k < length xs \<and> d = f (k, xs ! k)"
proof -
  from assms have "d \<in> set (map f (enumerate 0 xs))"
    by (rule in_set_takeD)
  then obtain k x where "(k, x) \<in> set (enumerate 0 xs)" and d: "d = f (k, x)"
    by auto
  then have "k < length xs \<and> x = xs ! k"
    by (auto simp: in_set_enumerate_eq)
  with d show ?thesis by blast
qed


lemma checkSources_calls:
  "fst (checkSources E state i srcs) =
     map_option (\<lambda>(k, e). Wrap e (checking_mux_source k))
       (spec_firstFailure
          (map (\<lambda>(k, src). (k, fst (valueSource_CheckValid E src
                                    (state\<lparr>sourcePosition := word_of_nat k\<rparr>))))
               (enumerate i srcs)))"
proof (induction srcs arbitrary: i)
  case Nil
  then show ?case by simp
next
  case (Cons src others)
  obtain err st where call:
    "valueSource_CheckValid E src (state\<lparr>sourcePosition := word_of_nat i\<rparr>) = (err, st)"
    by (cases "valueSource_CheckValid E src (state\<lparr>sourcePosition := word_of_nat i\<rparr>)")
  show ?case
  proof (cases err)
    case (Some e)
    with call show ?thesis
      by (simp add: Let_def)
  next
    case None
    with call have "fst (checkSources E state i (src # others)) =
                    fst (checkSources E state (Suc i) others)"
      by (simp add: Let_def split: prod.splits)
    with None call show ?thesis
      using Cons.IH [of "Suc i"] by simp
  qed
qed

lemma checkSources_log_length:
  "length (snd (snd (checkSources E state i srcs))) + i =
     (case spec_firstFailure
          (map (\<lambda>(k, src). (k, fst (valueSource_CheckValid E src
                                    (state\<lparr>sourcePosition := word_of_nat k\<rparr>))))
               (enumerate i srcs)) of
        Some (k, e) \<Rightarrow> k + 1
      | None \<Rightarrow> i + length srcs)"
proof (induction srcs arbitrary: i)
  case Nil
  then show ?case by simp
next
  case (Cons src others)
  obtain err st where call:
    "valueSource_CheckValid E src (state\<lparr>sourcePosition := word_of_nat i\<rparr>) = (err, st)"
    by (cases "valueSource_CheckValid E src (state\<lparr>sourcePosition := word_of_nat i\<rparr>)")
  show ?case
  proof (cases err)
    case (Some e)
    with call show ?thesis
      by (simp add: Let_def)
  next
    case None
    with call have "length (snd (snd (checkSources E state i (src # others)))) =
                    Suc (length (snd (snd (checkSources E state (Suc i) others))))"
      by (simp add: Let_def split: prod.splits)
    with None call show ?thesis
      using Cons.IH [of "Suc i"] by (simp split: option.splits prod.splits)
  qed
qed

lemma checkDestinations_calls:
  "fst (checkDestinations E state i dests) =
     map_option (\<lambda>(k, e). Wrap e (checking_mux_destination k))
       (spec_firstFailure
          (map (\<lambda>(k, dest). (k, fst (ValueDestination_CheckValid E dest
                                    (state\<lparr>destPosition := word_of_nat k\<rparr>))))
               (enumerate i dests)))"
proof (induction dests arbitrary: i)
  case Nil
  then show ?case by simp
next
  case (Cons dest others)
  obtain err st where call:
    "ValueDestination_CheckValid E dest (state\<lparr>destPosition := word_of_nat i\<rparr>) = (err, st)"
    by (cases "ValueDestination_CheckValid E dest (state\<lparr>destPosition := word_of_nat i\<rparr>)")
  show ?case
  proof (cases err)
    case (Some e)
    with call show ?thesis
      by (simp add: Let_def)
  next
    case None
    with call have "fst (checkDestinations E state i (dest # others)) =
                    fst (checkDestinations E state (Suc i) others)"
      by (simp add: Let_def split: prod.splits)
    with None call show ?thesis
      using Cons.IH [of "Suc i"] by simp
  qed
qed

lemma checkDestinations_log_length:
  "length (snd (snd (checkDestinations E state i dests))) + i =
     (case spec_firstFailure
          (map (\<lambda>(k, dest). (k, fst (ValueDestination_CheckValid E dest
                                    (state\<lparr>destPosition := word_of_nat k\<rparr>))))
               (enumerate i dests)) of
        Some (k, e) \<Rightarrow> k + 1
      | None \<Rightarrow> i + length dests)"
proof (induction dests arbitrary: i)
  case Nil
  then show ?case by simp
next
  case (Cons dest others)
  obtain err st where call:
    "ValueDestination_CheckValid E dest (state\<lparr>destPosition := word_of_nat i\<rparr>) = (err, st)"
    by (cases "ValueDestination_CheckValid E dest (state\<lparr>destPosition := word_of_nat i\<rparr>)")
  show ?case
  proof (cases err)
    case (Some e)
    with call show ?thesis
      by (simp add: Let_def)
  next
    case None
    with call have "length (snd (snd (checkDestinations E state i (dest # others)))) =
                    Suc (length (snd (snd (checkDestinations E state (Suc i) others))))"
      by (simp add: Let_def split: prod.splits)
    with None call show ?thesis
      using Cons.IH [of "Suc i"] by (simp split: option.splits prod.splits)
  qed
qed

lemma Mux_CheckValid_run_calls:
  "fst (Mux_CheckValid_run E mux state) =
     (case vm_Verify E (newTxVMContext (currentTx state) mux
                          (Mux_body.Program (Mux.body mux))
                          (Mux_witness.Arguments (Mux.witness mux))) of
        Some err \<Rightarrow> Returns (Some (Wrap err checking_mux_program))
      | None \<Rightarrow>
          (case spec_firstFailure (spec_sourceDescents E state (Sources (Mux.body mux))) of
             Some (i, e) \<Rightarrow> Returns (Some (Wrap e (checking_mux_source i)))
           | None \<Rightarrow>
               (case spec_firstFailure
                       (spec_destinationDescents E state (Destinations (Mux.witness mux))) of
                  Some (i, e) \<Rightarrow> Returns (Some (Wrap e (checking_mux_destination i)))
                | None \<Rightarrow> checkParity E mux state)))"
  and Mux_CheckValid_run_log_length:
    "length (snd (snd (Mux_CheckValid_run E mux state))) =
     (case vm_Verify E (newTxVMContext (currentTx state) mux
                          (Mux_body.Program (Mux.body mux))
                          (Mux_witness.Arguments (Mux.witness mux))) of
        Some err \<Rightarrow> 0
      | None \<Rightarrow>
          (case spec_firstFailure (spec_sourceDescents E state (Sources (Mux.body mux))) of
             Some (i, e) \<Rightarrow> i + 1
           | None \<Rightarrow>
               length (Sources (Mux.body mux)) +
               (case spec_firstFailure
                       (spec_destinationDescents E state (Destinations (Mux.witness mux))) of
                  Some (i, e) \<Rightarrow> i + 1
                | None \<Rightarrow> length (Destinations (Mux.witness mux)))))"
proof -
  let ?v = "vm_Verify E (newTxVMContext (currentTx state) mux
                          (Mux_body.Program (Mux.body mux))
                          (Mux_witness.Arguments (Mux.witness mux)))"
  let ?fs = "spec_firstFailure (spec_sourceDescents E state (Sources (Mux.body mux)))"
  let ?fd = "spec_firstFailure
               (spec_destinationDescents E state (Destinations (Mux.witness mux)))"
  obtain r1 st1 ds1 where s: "checkSources E state 0 (Sources (Mux.body mux)) = (r1, st1, ds1)"
    by (cases "checkSources E state 0 (Sources (Mux.body mux))")
  obtain r2 st2 ds2 where
    d: "checkDestinations E state 0 (Destinations (Mux.witness mux)) = (r2, st2, ds2)"
    by (cases "checkDestinations E state 0 (Destinations (Mux.witness mux))")
  have st1: "st1 = state" using s by (rule checkSources_state)
  have st2: "st2 = state" using d by (rule checkDestinations_state)
  have r1: "r1 = map_option (\<lambda>(k, e). Wrap e (checking_mux_source k)) ?fs"
    using checkSources_calls [of E state 0 "Sources (Mux.body mux)"] s
    by (simp add: spec_sourceDescents_def)
  have r2: "r2 = map_option (\<lambda>(k, e). Wrap e (checking_mux_destination k)) ?fd"
    using checkDestinations_calls [of E state 0 "Destinations (Mux.witness mux)"] d
    by (simp add: spec_destinationDescents_def)
  have l1: "length ds1 = (case ?fs of Some (k, e) \<Rightarrow> k + 1
                          | None \<Rightarrow> length (Sources (Mux.body mux)))"
    using checkSources_log_length [of E state 0 "Sources (Mux.body mux)"] s
    by (simp add: spec_sourceDescents_def split: option.splits)
  have l2: "length ds2 = (case ?fd of Some (k, e) \<Rightarrow> k + 1
                          | None \<Rightarrow> length (Destinations (Mux.witness mux)))"
    using checkDestinations_log_length [of E state 0 "Destinations (Mux.witness mux)"] d
    by (simp add: spec_destinationDescents_def split: option.splits)
  have both: "fst (Mux_CheckValid_run E mux state) =
     (case ?v of
        Some err \<Rightarrow> Returns (Some (Wrap err checking_mux_program))
      | None \<Rightarrow>
          (case ?fs of
             Some (i, e) \<Rightarrow> Returns (Some (Wrap e (checking_mux_source i)))
           | None \<Rightarrow>
               (case ?fd of
                  Some (i, e) \<Rightarrow> Returns (Some (Wrap e (checking_mux_destination i)))
                | None \<Rightarrow> checkParity E mux state)))
    \<and> length (snd (snd (Mux_CheckValid_run E mux state))) =
     (case ?v of
        Some err \<Rightarrow> 0
      | None \<Rightarrow>
          (case ?fs of
             Some (i, e) \<Rightarrow> i + 1
           | None \<Rightarrow>
               length (Sources (Mux.body mux)) +
               (case ?fd of
                  Some (i, e) \<Rightarrow> i + 1
                | None \<Rightarrow> length (Destinations (Mux.witness mux)))))"
  proof (cases ?v)
    case (Some err)
    then show ?thesis
      using run_verify_fails [OF Some] by simp
  next
    case None
    note verify = this
    show ?thesis
    proof (cases ?fs)
      case (Some ie)
      obtain i e where ie: "ie = (i, e)" by (cases ie)
      from r1 Some ie have "r1 = Some (Wrap e (checking_mux_source i))" by simp
      with s have "checkSources E state 0 (Sources (Mux.body mux))
                   = (Some (Wrap e (checking_mux_source i)), st1, ds1)" by simp
      from run_source_fails [OF verify this] show ?thesis
        using verify Some ie l1 by simp
    next
      case None
      note fs = this
      with r1 s st1 have s': "checkSources E state 0 (Sources (Mux.body mux)) = (None, st1, ds1)"
        by simp
      show ?thesis
      proof (cases ?fd)
        case (Some ie)
        obtain i e where ie: "ie = (i, e)" by (cases ie)
        from r2 Some ie have "r2 = Some (Wrap e (checking_mux_destination i))" by simp
        with d st1 have "checkDestinations E st1 0 (Destinations (Mux.witness mux))
                     = (Some (Wrap e (checking_mux_destination i)), st2, ds2)" by simp
        from run_destination_fails [OF verify s' this] show ?thesis
          using verify fs Some ie l1 l2 by simp
      next
        case None
        with r2 d st1 have "checkDestinations E st1 0 (Destinations (Mux.witness mux))
                     = (None, st2, ds2)" by simp
        from run_descents_pass [OF verify s' this] show ?thesis
          using verify fs None l1 l2 st2 by simp
      qed
    qed
  qed
  from both show "fst (Mux_CheckValid_run E mux state) =
     (case ?v of
        Some err \<Rightarrow> Returns (Some (Wrap err checking_mux_program))
      | None \<Rightarrow>
          (case ?fs of
             Some (i, e) \<Rightarrow> Returns (Some (Wrap e (checking_mux_source i)))
           | None \<Rightarrow>
               (case ?fd of
                  Some (i, e) \<Rightarrow> Returns (Some (Wrap e (checking_mux_destination i)))
                | None \<Rightarrow> checkParity E mux state)))"
    by (rule conjunct1)
  from both show "length (snd (snd (Mux_CheckValid_run E mux state))) =
     (case ?v of
        Some err \<Rightarrow> 0
      | None \<Rightarrow>
          (case ?fs of
             Some (i, e) \<Rightarrow> i + 1
           | None \<Rightarrow>
               length (Sources (Mux.body mux)) +
               (case ?fd of
                  Some (i, e) \<Rightarrow> i + 1
                | None \<Rightarrow> length (Destinations (Mux.witness mux)))))"
    by (rule conjunct2)
qed

lemma Mux_CheckValid_descents:
  assumes run: "Mux_CheckValid_run E mux state = (r, state', ds)"
  shows "state' = state
       \<and> take (length ds)
           (map (\<lambda>(i, src). SourceDescent i src (state\<lparr>sourcePosition := word_of_nat i\<rparr>))
                (enumerate 0 (Sources (Mux.body mux)))
            @ map (\<lambda>(i, dest). DestDescent i dest (state\<lparr>destPosition := word_of_nat i\<rparr>))
                (enumerate 0 (Destinations (Mux.witness mux)))) = ds
       \<and> ((\<forall>e m. r \<noteq> Returns (Some (Wrap e m))) \<longrightarrow>
            length ds = length (Sources (Mux.body mux)) + length (Destinations (Mux.witness mux)))
       \<and> (\<forall>d \<in> set ds.
            case d of
              SourceDescent i src st \<Rightarrow>
                i < length (Sources (Mux.body mux)) \<and> src = Sources (Mux.body mux) ! i
                \<and> st = state\<lparr>sourcePosition := word_of_nat i\<rparr>
            | DestDescent i dest st \<Rightarrow>
                i < length (Destinations (Mux.witness mux))
                \<and> dest = Destinations (Mux.witness mux) ! i
                \<and> st = state\<lparr>destPosition := word_of_nat i\<rparr>)"
proof -
  let ?S = "map (\<lambda>(i, src). SourceDescent i src (state\<lparr>sourcePosition := word_of_nat i\<rparr>))
                (enumerate 0 (Sources (Mux.body mux)))"
  let ?D = "map (\<lambda>(i, dest). DestDescent i dest (state\<lparr>destPosition := word_of_nat i\<rparr>))
                (enumerate 0 (Destinations (Mux.witness mux)))"
  obtain r1 st1 ds1 where s: "checkSources E state 0 (Sources (Mux.body mux)) = (r1, st1, ds1)"
    by (cases "checkSources E state 0 (Sources (Mux.body mux))")
  obtain r2 st2 ds2 where
    d: "checkDestinations E state 0 (Destinations (Mux.witness mux)) = (r2, st2, ds2)"
    by (cases "checkDestinations E state 0 (Destinations (Mux.witness mux))")
  have st1: "st1 = state" using s by (rule checkSources_state)
  have st2: "st2 = state" using d by (rule checkDestinations_state)
  have ds1: "take (length ds1) ?S = ds1" and le1: "length ds1 \<le> length ?S"
    and full1: "r1 = None \<longrightarrow> length ds1 = length ?S"
    using checkSources_log [OF s] by simp_all
  have ds2: "take (length ds2) ?D = ds2"
    and full2: "r2 = None \<longrightarrow> length ds2 = length ?D"
    using checkDestinations_log [OF d] by simp_all
  have main: "state' = state \<and> take (length ds) (?S @ ?D) = ds
       \<and> ((\<forall>e m. r \<noteq> Returns (Some (Wrap e m))) \<longrightarrow> length ds = length ?S + length ?D)"
  proof (cases "vm_Verify E (newTxVMContext (currentTx state) mux
                   (Mux_body.Program (Mux.body mux)) (Mux_witness.Arguments (Mux.witness mux)))")
    case (Some err)
    from run run_verify_fails [OF Some]
    have "r = Returns (Some (Wrap err checking_mux_program))" "state' = state" "ds = []"
      by simp_all
    then show ?thesis by simp
  next
    case None
    note verify = this
    show ?thesis
    proof (cases r1)
      case (Some err)
      then obtain e m where w: "err = Wrap e m"
        using s checkSources_error by blast
      from s Some have "checkSources E state 0 (Sources (Mux.body mux)) = (Some err, st1, ds1)"
        by simp
      from run run_source_fails [OF verify this] st1 w
      have "state' = state" "ds = ds1" "r = Returns (Some (Wrap e m))"
        by simp_all
      moreover have "take (length ds1) (?S @ ?D) = ds1"
        using le1 by (simp add: ds1)
      ultimately show ?thesis by simp
    next
      case None
      note r1 = this
      then have "take (length ds1) ?S = ?S"
        using full1 by simp
      with ds1 have S: "ds1 = ?S"
        by (rule trans [OF sym])
      have s': "checkSources E state 0 (Sources (Mux.body mux)) = (None, st1, ds1)"
        using s r1 by simp
      have app: "take (length (ds1 @ ds2)) (?S @ ?D) = ds1 @ ds2"
        by (simp add: S ds2)
      show ?thesis
      proof (cases r2)
        case (Some err)
        then obtain e m where w: "err = Wrap e m"
          using d checkDestinations_error by blast
        from d Some st1
        have "checkDestinations E st1 0 (Destinations (Mux.witness mux)) = (Some err, st2, ds2)"
          by simp
        from run run_destination_fails [OF verify s' this] st2 w
        have "state' = state" "ds = ds1 @ ds2" "r = Returns (Some (Wrap e m))"
          by simp_all
        with app show ?thesis by simp
      next
        case None
        with d st1
        have "checkDestinations E st1 0 (Destinations (Mux.witness mux)) = (None, st2, ds2)"
          by simp
        from run run_descents_pass [OF verify s' this] st2
        have "state' = state" "ds = ds1 @ ds2"
          by simp_all
        moreover have "length (ds1 @ ds2) = length ?S + length ?D"
          using S full2 None by simp
        ultimately show ?thesis using app by simp
      qed
    qed
  qed
  have each: "\<forall>d \<in> set ds.
            case d of
              SourceDescent i src st \<Rightarrow>
                i < length (Sources (Mux.body mux)) \<and> src = Sources (Mux.body mux) ! i
                \<and> st = state\<lparr>sourcePosition := word_of_nat i\<rparr>
            | DestDescent i dest st \<Rightarrow>
                i < length (Destinations (Mux.witness mux))
                \<and> dest = Destinations (Mux.witness mux) ! i
                \<and> st = state\<lparr>destPosition := word_of_nat i\<rparr>"
  proof
    fix x assume "x \<in> set ds"
    with main have "x \<in> set (take (length ds) (?S @ ?D))" by metis
    then have "x \<in> set (?S @ ?D)"
      by (rule in_set_takeD)
    then have "x \<in> set ?S \<or> x \<in> set ?D"
      by simp
    then show "case x of
              SourceDescent i src st \<Rightarrow>
                i < length (Sources (Mux.body mux)) \<and> src = Sources (Mux.body mux) ! i
                \<and> st = state\<lparr>sourcePosition := word_of_nat i\<rparr>
            | DestDescent i dest st \<Rightarrow>
                i < length (Destinations (Mux.witness mux))
                \<and> dest = Destinations (Mux.witness mux) ! i
                \<and> st = state\<lparr>destPosition := word_of_nat i\<rparr>"
      by (auto simp: in_set_enumerate_eq)
  qed
  show ?thesis
    using main each by simp
qed




text \<open>
  C8. \<open>Mux.CheckValid\<close> leaves the caller's validation state as it found it, and what
  it returns is decided by what the callees answer when they are handed a copy of that
  state with one position set: after the program, the first source, by index \<open>i\<close>,
  whose \<open>CheckValid\<close> fails on the caller's state with \<open>sourcePosition\<close> set to
  \<open>i\<close> gives the error, wrapped with \<open>i\<close>; if there is none, the first destination
  whose \<open>CheckValid\<close> fails on the caller's state with \<open>destPosition\<close> set to \<open>i\<close>;
  if there is none either, the parity decides. The descents made are, in this order and
  up to the first one that fails, the sources by index and then the destinations by
  index, each with exactly that copy, whatever the earlier callees wrote into theirs. In
  the instances that follow the callees fail by the position they are handed and
  overwrite both positions of the state they are given.
\<close>

theorem Mux_CheckValid_copies_state:
  assumes run: "Mux_CheckValid_run E mux state = (r, state', ds)"
  shows "r = (case vm_Verify E (newTxVMContext (currentTx state) mux
                              (Mux_body.Program (Mux.body mux))
                              (Mux_witness.Arguments (Mux.witness mux))) of
            Some err \<Rightarrow> Returns (Some (Wrap err checking_mux_program))
          | None \<Rightarrow>
              (case spec_firstFailure
                      (spec_sourceDescents E state (Sources (Mux.body mux))) of
                 Some (i, e) \<Rightarrow> Returns (Some (Wrap e (checking_mux_source i)))
               | None \<Rightarrow>
                   (case spec_firstFailure
                           (spec_destinationDescents E state
                              (Destinations (Mux.witness mux))) of
                      Some (i, e) \<Rightarrow> Returns (Some (Wrap e (checking_mux_destination i)))
                    | None \<Rightarrow> checkParity E mux state)))
       \<and> length ds = (case vm_Verify E (newTxVMContext (currentTx state) mux
                              (Mux_body.Program (Mux.body mux))
                              (Mux_witness.Arguments (Mux.witness mux))) of
            Some err \<Rightarrow> 0
          | None \<Rightarrow>
              (case spec_firstFailure
                      (spec_sourceDescents E state (Sources (Mux.body mux))) of
                 Some (i, e) \<Rightarrow> i + 1
               | None \<Rightarrow>
                   length (Sources (Mux.body mux)) +
                   (case spec_firstFailure
                           (spec_destinationDescents E state
                              (Destinations (Mux.witness mux))) of
                      Some (i, e) \<Rightarrow> i + 1
                    | None \<Rightarrow> length (Destinations (Mux.witness mux)))))
       \<and> state' = state
       \<and> take (length ds)
           (map (\<lambda>(i, src). SourceDescent i src (state\<lparr>sourcePosition := word_of_nat i\<rparr>))
                (enumerate 0 (Sources (Mux.body mux)))
            @ map (\<lambda>(i, dest). DestDescent i dest (state\<lparr>destPosition := word_of_nat i\<rparr>))
                (enumerate 0 (Destinations (Mux.witness mux)))) = ds
       \<and> ((\<forall>e m. r \<noteq> Returns (Some (Wrap e m))) \<longrightarrow>
            length ds = length (Sources (Mux.body mux)) + length (Destinations (Mux.witness mux)))
       \<and> (\<forall>d \<in> set ds.
            case d of
              SourceDescent i src st \<Rightarrow>
                i < length (Sources (Mux.body mux)) \<and> src = Sources (Mux.body mux) ! i
                \<and> st = state\<lparr>sourcePosition := word_of_nat i\<rparr>
            | DestDescent i dest st \<Rightarrow>
                i < length (Destinations (Mux.witness mux))
                \<and> dest = Destinations (Mux.witness mux) ! i
                \<and> st = state\<lparr>destPosition := word_of_nat i\<rparr>)"
proof -
  have calls: "r = (case vm_Verify E (newTxVMContext (currentTx state) mux
                              (Mux_body.Program (Mux.body mux))
                              (Mux_witness.Arguments (Mux.witness mux))) of
            Some err \<Rightarrow> Returns (Some (Wrap err checking_mux_program))
          | None \<Rightarrow>
              (case spec_firstFailure
                      (spec_sourceDescents E state (Sources (Mux.body mux))) of
                 Some (i, e) \<Rightarrow> Returns (Some (Wrap e (checking_mux_source i)))
               | None \<Rightarrow>
                   (case spec_firstFailure
                           (spec_destinationDescents E state
                              (Destinations (Mux.witness mux))) of
                      Some (i, e) \<Rightarrow> Returns (Some (Wrap e (checking_mux_destination i)))
                    | None \<Rightarrow> checkParity E mux state)))"
    using Mux_CheckValid_run_calls [of E mux state] run by simp
  have len: "length ds = (case vm_Verify E (newTxVMContext (currentTx state) mux
                              (Mux_body.Program (Mux.body mux))
                              (Mux_witness.Arguments (Mux.witness mux))) of
            Some err \<Rightarrow> 0
          | None \<Rightarrow>
              (case spec_firstFailure
                      (spec_sourceDescents E state (Sources (Mux.body mux))) of
                 Some (i, e) \<Rightarrow> i + 1
               | None \<Rightarrow>
                   length (Sources (Mux.body mux)) +
                   (case spec_firstFailure
                           (spec_destinationDescents E state
                              (Destinations (Mux.witness mux))) of
                      Some (i, e) \<Rightarrow> i + 1
                    | None \<Rightarrow> length (Destinations (Mux.witness mux)))))"
    using Mux_CheckValid_run_log_length [of E mux state] run by simp
  show ?thesis
    using calls len Mux_CheckValid_descents [OF run] by (rule conjI [OF _ conjI])
qed

theorem Mux_CheckValid_copies_state_witness:
  "Mux_CheckValid_run position_checking
     (mux_of [source_of assetA 1, source_of assetA 2, source_of assetA 3] [destination_of assetA 6] 0)
     (state_of_version 1)
   = (Returns (Some (Wrap errPosition (checking_mux_source 1))),
      state_of_version 1,
      [SourceDescent 0 (source_of assetA 1) ((state_of_version 1)\<lparr>sourcePosition := 0\<rparr>),
       SourceDescent 1 (source_of assetA 2) ((state_of_version 1)\<lparr>sourcePosition := 1\<rparr>)])
   \<and> Mux_CheckValid_run position_checking
     (mux_of [source_of assetA 6] [destination_of assetA 1, destination_of assetA 2, destination_of assetA 3] 0)
     (state_of_version 1)
   = (Returns (Some (Wrap errPosition (checking_mux_destination 2))),
      state_of_version 1,
      [SourceDescent 0 (source_of assetA 6) ((state_of_version 1)\<lparr>sourcePosition := 0\<rparr>),
       DestDescent 0 (destination_of assetA 1) ((state_of_version 1)\<lparr>destPosition := 0\<rparr>),
       DestDescent 1 (destination_of assetA 2) ((state_of_version 1)\<lparr>destPosition := 1\<rparr>),
       DestDescent 2 (destination_of assetA 3) ((state_of_version 1)\<lparr>destPosition := 2\<rparr>)])
   \<and> Mux_CheckValid_run scribbling
     (mux_of [source_of assetA 1, source_of assetA 2] [destination_of assetA 3] 0)
     (state_of_version 1)
   = (Returns None,
      state_of_version 1,
      [SourceDescent 0 (source_of assetA 1) ((state_of_version 1)\<lparr>sourcePosition := 0\<rparr>),
       SourceDescent 1 (source_of assetA 2) ((state_of_version 1)\<lparr>sourcePosition := 1\<rparr>),
       DestDescent 0 (destination_of assetA 3) ((state_of_version 1)\<lparr>destPosition := 0\<rparr>)])"
proof -
  have a: "Mux_CheckValid_run position_checking
     (mux_of [source_of assetA 1, source_of assetA 2, source_of assetA 3] [destination_of assetA 6] 0)
     (state_of_version 1)
   = (Returns (Some (Wrap errPosition (checking_mux_source 1))),
      state_of_version 1,
      [SourceDescent 0 (source_of assetA 1) ((state_of_version 1)\<lparr>sourcePosition := 0\<rparr>),
       SourceDescent 1 (source_of assetA 2) ((state_of_version 1)\<lparr>sourcePosition := 1\<rparr>)])"
    by (simp add: mux_eval position_checking_def)
  have b: "Mux_CheckValid_run position_checking
     (mux_of [source_of assetA 6] [destination_of assetA 1, destination_of assetA 2, destination_of assetA 3] 0)
     (state_of_version 1)
   = (Returns (Some (Wrap errPosition (checking_mux_destination 2))),
      state_of_version 1,
      [SourceDescent 0 (source_of assetA 6) ((state_of_version 1)\<lparr>sourcePosition := 0\<rparr>),
       DestDescent 0 (destination_of assetA 1) ((state_of_version 1)\<lparr>destPosition := 0\<rparr>),
       DestDescent 1 (destination_of assetA 2) ((state_of_version 1)\<lparr>destPosition := 1\<rparr>),
       DestDescent 2 (destination_of assetA 3) ((state_of_version 1)\<lparr>destPosition := 2\<rparr>)])"
    by (simp add: mux_eval position_checking_def)
  have c: "Mux_CheckValid_run scribbling
     (mux_of [source_of assetA 1, source_of assetA 2] [destination_of assetA 3] 0)
     (state_of_version 1)
   = (Returns None,
      state_of_version 1,
      [SourceDescent 0 (source_of assetA 1) ((state_of_version 1)\<lparr>sourcePosition := 0\<rparr>),
       SourceDescent 1 (source_of assetA 2) ((state_of_version 1)\<lparr>sourcePosition := 1\<rparr>),
       DestDescent 0 (destination_of assetA 3) ((state_of_version 1)\<lparr>destPosition := 0\<rparr>)])"
    by (simp add: mux_eval scribbling_def)
  show ?thesis
    using Mux_CheckValid_copies_state [OF a] Mux_CheckValid_copies_state [OF b]
      Mux_CheckValid_copies_state [OF c] a b c
    by simp
qed

section \<open>The extension hash\<close>

lemma checkParity_ExtHash:
  "\<exists>pre. (\<forall>e. pre = Some e \<longrightarrow> e \<noteq> errNonemptyExtHash) \<and>
     (\<forall>h. checkParity E (mux\<lparr>Mux.body := (Mux.body mux)\<lparr>Mux_body.ExtHash := h\<rparr>\<rparr>) state =
            (case pre of Some e \<Rightarrow> Returns (Some e) | None \<Rightarrow> checkExtHash state h))"
proof (cases "addSources 0 (Sources (Mux.body mux)) []")
  case (Inl err)
  then have "\<forall>h. checkParity E (mux\<lparr>Mux.body := (Mux.body mux)\<lparr>Mux_body.ExtHash := h\<rparr>\<rparr>) state =
            (case Some err of Some e \<Rightarrow> Returns (Some e) | None \<Rightarrow> checkExtHash state h)"
    by (simp add: checkParity_def)
  moreover have "err \<noteq> errNonemptyExtHash"
    using addSources_Inl [OF Inl] by auto
  ultimately show ?thesis by blast
next
  case (Inr p0)
  note add = this
  show ?thesis
  proof (cases "subDestinations 0 (Destinations (Mux.witness mux)) p0")
    case (Inl err)
    with add have "\<forall>h. checkParity E (mux\<lparr>Mux.body := (Mux.body mux)\<lparr>Mux_body.ExtHash := h\<rparr>\<rparr>) state =
            (case Some err of Some e \<Rightarrow> Returns (Some e) | None \<Rightarrow> checkExtHash state h)"
      by (simp add: checkParity_def)
    moreover have "err \<noteq> errNonemptyExtHash"
      using subDestinations_Inl [OF Inl] by auto
    ultimately show ?thesis by blast
  next
    case (Inr p)
    note sub = this
    show ?thesis
    proof (cases "checkBalance (range_parity E p)")
      case None
      with add sub have "\<forall>h. checkParity E (mux\<lparr>Mux.body := (Mux.body mux)\<lparr>Mux_body.ExtHash := h\<rparr>\<rparr>) state =
            (case None of Some e \<Rightarrow> Returns (Some e) | None \<Rightarrow> checkExtHash state h)"
        by (simp add: checkParity_def)
      then show ?thesis by blast
    next
      case (Some err)
      with add sub have "\<forall>h. checkParity E (mux\<lparr>Mux.body := (Mux.body mux)\<lparr>Mux_body.ExtHash := h\<rparr>\<rparr>) state =
            (case Some err of Some e \<Rightarrow> Returns (Some e) | None \<Rightarrow> checkExtHash state h)"
        by (simp add: checkParity_def)
      moreover have "err \<noteq> errNonemptyExtHash"
        using checkBalance_Some [OF Some] by auto
      ultimately show ?thesis by blast
    qed
  qed
qed

lemma Mux_CheckValid_run_ExtHash:
  "fst (Mux_CheckValid_run E (mux\<lparr>Mux.body := (Mux.body mux)\<lparr>Mux_body.ExtHash := h\<rparr>\<rparr>) state) =
     (case vm_Verify E TxVMContext of
        Some err \<Rightarrow> Returns (Some (Wrap err checking_mux_program))
      | None \<Rightarrow>
          (case checkSources E state 0 (Sources (Mux.body mux)) of
             (Some err, st, ds) \<Rightarrow> Returns (Some err)
           | (None, st, ds) \<Rightarrow>
               (case checkDestinations E st 0 (Destinations (Mux.witness mux)) of
                  (Some err, st', ds') \<Rightarrow> Returns (Some err)
                | (None, st', ds') \<Rightarrow>
                    checkParity E (mux\<lparr>Mux.body := (Mux.body mux)\<lparr>Mux_body.ExtHash := h\<rparr>\<rparr>) st')))"
  by (simp add: Mux_CheckValid_run_def newTxVMContext_def split: option.splits prod.splits)

lemma Mux_CheckValid_ExtHash:
  "\<exists>pre. (\<forall>e. pre = Some e \<longrightarrow> e \<noteq> errNonemptyExtHash) \<and>
     (\<forall>h. Mux_CheckValid E (mux\<lparr>Mux.body := (Mux.body mux)\<lparr>Mux_body.ExtHash := h\<rparr>\<rparr>) state =
            (case pre of Some e \<Rightarrow> Returns (Some e) | None \<Rightarrow> checkExtHash state h))"
proof (cases "vm_Verify E TxVMContext")
  case (Some err)
  then have "\<forall>h. Mux_CheckValid E (mux\<lparr>Mux.body := (Mux.body mux)\<lparr>Mux_body.ExtHash := h\<rparr>\<rparr>) state =
            (case Some (Wrap err checking_mux_program) of
               Some e \<Rightarrow> Returns (Some e) | None \<Rightarrow> checkExtHash state h)"
    by (simp add: Mux_CheckValid_def Mux_CheckValid_run_ExtHash)
  then show ?thesis by blast
next
  case None
  note verify = this
  obtain r st ds where s: "checkSources E state 0 (Sources (Mux.body mux)) = (r, st, ds)"
    by (cases "checkSources E state 0 (Sources (Mux.body mux))")
  obtain r' st' ds' where
    d: "checkDestinations E state 0 (Destinations (Mux.witness mux)) = (r', st', ds')"
    by (cases "checkDestinations E state 0 (Destinations (Mux.witness mux))")
  have st: "st = state" using s by (rule checkSources_state)
  have st': "st' = state" using d by (rule checkDestinations_state)
  show ?thesis
  proof (cases r)
    case (Some err)
    then obtain e m where w: "err = Wrap e m"
      using s checkSources_error by blast
    from verify s Some
    have "\<forall>h. Mux_CheckValid E (mux\<lparr>Mux.body := (Mux.body mux)\<lparr>Mux_body.ExtHash := h\<rparr>\<rparr>) state =
            (case Some err of Some e \<Rightarrow> Returns (Some e) | None \<Rightarrow> checkExtHash state h)"
      by (simp add: Mux_CheckValid_def Mux_CheckValid_run_ExtHash)
    with w show ?thesis by blast
  next
    case None
    note r = this
    show ?thesis
    proof (cases r')
      case (Some err)
      then obtain e m where w: "err = Wrap e m"
        using d checkDestinations_error by blast
      from verify s d r st Some
      have "\<forall>h. Mux_CheckValid E (mux\<lparr>Mux.body := (Mux.body mux)\<lparr>Mux_body.ExtHash := h\<rparr>\<rparr>) state =
            (case Some err of Some e \<Rightarrow> Returns (Some e) | None \<Rightarrow> checkExtHash state h)"
        by (simp add: Mux_CheckValid_def Mux_CheckValid_run_ExtHash)
      with w show ?thesis by blast
    next
      case None
      with verify s d r st st'
      have "\<forall>h. Mux_CheckValid E (mux\<lparr>Mux.body := (Mux.body mux)\<lparr>Mux_body.ExtHash := h\<rparr>\<rparr>) state =
                 checkParity E (mux\<lparr>Mux.body := (Mux.body mux)\<lparr>Mux_body.ExtHash := h\<rparr>\<rparr>) state"
        by (simp add: Mux_CheckValid_def Mux_CheckValid_run_ExtHash)
      then show ?thesis
        using checkParity_ExtHash [of E mux state] by simp
    qed
  qed
qed

lemma Nonce_CheckValid_ExtHash:
  "\<exists>pre. (\<forall>e. pre = Returns (Some e) \<longrightarrow> e \<noteq> errNonemptyExtHash) \<and>
     (\<forall>h. Nonce_CheckValid E (n\<lparr>Nonce.body := (Nonce.body n)\<lparr>Nonce_body.ExtHash := h\<rparr>\<rparr>) state =
            (case pre of Returns None \<Rightarrow> checkExtHash state h | r \<Rightarrow> r))"
proof -
  let ?pre = "case vm_Verify E TxVMContext of
                Some err \<Rightarrow> Returns (Some (Wrap err checking_nonce_program))
              | None \<Rightarrow>
                 (case Nonce.TimeRange n of
                    None \<Rightarrow> Panics
                  | Some tr \<Rightarrow>
                     if MinTimeMS (TimeRange.body tr) = 0 \<or> MaxTimeMS (TimeRange.body tr) = 0
                     then Returns (Some errZeroTime) else Returns None)"
  have "\<forall>e. ?pre = Returns (Some e) \<longrightarrow> e \<noteq> errNonemptyExtHash"
    by (auto split: option.splits if_splits)
  moreover have "\<forall>h. Nonce_CheckValid E (n\<lparr>Nonce.body := (Nonce.body n)\<lparr>Nonce_body.ExtHash := h\<rparr>\<rparr>) state =
            (case ?pre of Returns None \<Rightarrow> checkExtHash state h | r \<Rightarrow> r)"
    by (auto simp: Nonce_CheckValid_def newTxVMContext_def split: option.splits)
  ultimately show ?thesis by blast
qed

lemma checkExtHash_Some:
  "currentTx state = Some cur \<Longrightarrow>
     checkExtHash state h =
       (if Version (TxEntries.body cur) = 1 \<and> h \<noteq> 0 then Returns (Some errNonemptyExtHash)
        else Returns None)"
  by (simp add: checkExtHash_def)

lemma Mux_extension_hash:
  assumes cur: "currentTx state = Some cur"
  shows "(Version (TxEntries.body cur) = 1 \<and> Mux_body.ExtHash (Mux.body mux) \<noteq> 0 \<longrightarrow>
            Mux_CheckValid E mux state \<noteq> Returns None)
       \<and> (Mux_CheckValid E mux state = Returns (Some errNonemptyExtHash) \<longleftrightarrow>
            Version (TxEntries.body cur) = 1 \<and> Mux_body.ExtHash (Mux.body mux) \<noteq> 0
            \<and> Mux_CheckValid E (mux\<lparr>Mux.body := (Mux.body mux)\<lparr>Mux_body.ExtHash := 0\<rparr>\<rparr>) state
                = Returns None)
       \<and> (Version (TxEntries.body cur) \<noteq> 1 \<longrightarrow>
            Mux_CheckValid E mux state =
            Mux_CheckValid E (mux\<lparr>Mux.body := (Mux.body mux)\<lparr>Mux_body.ExtHash := 0\<rparr>\<rparr>) state)"
proof -
  obtain pre where pre: "\<forall>e. pre = Some e \<longrightarrow> e \<noteq> errNonemptyExtHash"
    and run: "\<And>h. Mux_CheckValid E (mux\<lparr>Mux.body := (Mux.body mux)\<lparr>Mux_body.ExtHash := h\<rparr>\<rparr>) state =
            (case pre of Some e \<Rightarrow> Returns (Some e) | None \<Rightarrow> checkExtHash state h)"
    using Mux_CheckValid_ExtHash [of E mux state] by blast
  have self: "mux\<lparr>Mux.body := (Mux.body mux)\<lparr>Mux_body.ExtHash := Mux_body.ExtHash (Mux.body mux)\<rparr>\<rparr> = mux"
    by simp
  have own: "Mux_CheckValid E mux state =
            (case pre of Some e \<Rightarrow> Returns (Some e)
             | None \<Rightarrow> checkExtHash state (Mux_body.ExtHash (Mux.body mux)))"
    using run [of "Mux_body.ExtHash (Mux.body mux)"] by (simp only: self)
  show ?thesis
  proof (cases pre)
    case None
    then show ?thesis
      using own run [of 0] by (simp add: checkExtHash_Some [OF cur])
  next
    case (Some e)
    with pre have "e \<noteq> errNonemptyExtHash" by simp
    with Some show ?thesis
      using own run [of 0] by simp
  qed
qed

lemma Nonce_extension_hash:
  assumes cur: "currentTx state = Some cur"
  shows "(Version (TxEntries.body cur) = 1 \<and> Nonce_body.ExtHash (Nonce.body n) \<noteq> 0 \<longrightarrow>
            Nonce_CheckValid E n state \<noteq> Returns None)
       \<and> (Nonce_CheckValid E n state = Returns (Some errNonemptyExtHash) \<longleftrightarrow>
            Version (TxEntries.body cur) = 1 \<and> Nonce_body.ExtHash (Nonce.body n) \<noteq> 0
            \<and> Nonce_CheckValid E (n\<lparr>Nonce.body := (Nonce.body n)\<lparr>Nonce_body.ExtHash := 0\<rparr>\<rparr>) state
                = Returns None)
       \<and> (Version (TxEntries.body cur) \<noteq> 1 \<longrightarrow>
            Nonce_CheckValid E n state =
            Nonce_CheckValid E (n\<lparr>Nonce.body := (Nonce.body n)\<lparr>Nonce_body.ExtHash := 0\<rparr>\<rparr>) state)"
proof -
  obtain pre where pre: "\<forall>e. pre = Returns (Some e) \<longrightarrow> e \<noteq> errNonemptyExtHash"
    and run: "\<And>h. Nonce_CheckValid E (n\<lparr>Nonce.body := (Nonce.body n)\<lparr>Nonce_body.ExtHash := h\<rparr>\<rparr>) state =
            (case pre of Returns None \<Rightarrow> checkExtHash state h | r \<Rightarrow> r)"
    using Nonce_CheckValid_ExtHash [of E n state] by blast
  have self: "n\<lparr>Nonce.body := (Nonce.body n)\<lparr>Nonce_body.ExtHash := Nonce_body.ExtHash (Nonce.body n)\<rparr>\<rparr> = n"
    by simp
  have own: "Nonce_CheckValid E n state =
            (case pre of Returns None \<Rightarrow> checkExtHash state (Nonce_body.ExtHash (Nonce.body n))
             | r \<Rightarrow> r)"
    using run [of "Nonce_body.ExtHash (Nonce.body n)"] by (simp only: self)
  show ?thesis
  proof (cases pre)
    case Panics
    then show ?thesis
      using own run [of 0] by simp
  next
    case (Returns r)
    show ?thesis
    proof (cases r)
      case None
      with Returns show ?thesis
        using own run [of 0] by (simp add: checkExtHash_Some [OF cur])
    next
      case (Some e)
      with pre Returns have "e \<noteq> errNonemptyExtHash" by simp
      with Some Returns show ?thesis
        using own run [of 0] by simp
    qed
  qed
qed


lemmas nonce_eval =
  Nonce_CheckValid_def checkExtHash_def newTxVMContext_def accepting_def
  rejecting_programs_def state_of_version_def nonce_of_def


text \<open>
  C4, as the code has it. Inside a transaction (of version \<open>v\<close>), for a Mux and for a
  Nonce: with \<open>v = 1\<close> and an extension hash that is not all zero, \<open>CheckValid\<close> never
  succeeds; it returns \<open>errNonemptyExtHash\<close> exactly when \<open>v = 1\<close>, the extension hash
  is not all zero and every other check passes, that is, the same entry with the
  extension hash set to zero validates (an earlier check that fails returns its own
  error); so an all-zero extension hash never gives \<open>errNonemptyExtHash\<close>. With
  \<open>v \<noteq> 1\<close> the extension hash is not looked at: the result is that of the entry with
  the extension hash set to zero.
\<close>

theorem extension_hash_under_version_1:
  assumes cur: "currentTx state = Some cur"
  shows "((Version (TxEntries.body cur) = 1 \<and> Mux_body.ExtHash (Mux.body mux) \<noteq> 0 \<longrightarrow>
            Mux_CheckValid E mux state \<noteq> Returns None)
       \<and> (Mux_CheckValid E mux state = Returns (Some errNonemptyExtHash) \<longleftrightarrow>
            Version (TxEntries.body cur) = 1 \<and> Mux_body.ExtHash (Mux.body mux) \<noteq> 0
            \<and> Mux_CheckValid E (mux\<lparr>Mux.body := (Mux.body mux)\<lparr>Mux_body.ExtHash := 0\<rparr>\<rparr>) state
                = Returns None)
       \<and> (Version (TxEntries.body cur) \<noteq> 1 \<longrightarrow>
            Mux_CheckValid E mux state =
            Mux_CheckValid E (mux\<lparr>Mux.body := (Mux.body mux)\<lparr>Mux_body.ExtHash := 0\<rparr>\<rparr>) state))
     \<and> ((Version (TxEntries.body cur) = 1 \<and> Nonce_body.ExtHash (Nonce.body n) \<noteq> 0 \<longrightarrow>
            Nonce_CheckValid E n state \<noteq> Returns None)
       \<and> (Nonce_CheckValid E n state = Returns (Some errNonemptyExtHash) \<longleftrightarrow>
            Version (TxEntries.body cur) = 1 \<and> Nonce_body.ExtHash (Nonce.body n) \<noteq> 0
            \<and> Nonce_CheckValid E (n\<lparr>Nonce.body := (Nonce.body n)\<lparr>Nonce_body.ExtHash := 0\<rparr>\<rparr>) state
                = Returns None)
       \<and> (Version (TxEntries.body cur) \<noteq> 1 \<longrightarrow>
            Nonce_CheckValid E n state =
            Nonce_CheckValid E (n\<lparr>Nonce.body := (Nonce.body n)\<lparr>Nonce_body.ExtHash := 0\<rparr>\<rparr>) state))"
  using Mux_extension_hash [OF cur, of mux E] Nonce_extension_hash [OF cur, of n E]
  by (rule conjI)

theorem extension_hash_under_version_1_witness:
  "currentTx (state_of_version 1) = Some \<lparr>TxEntries.body = \<lparr>Version = 1\<rparr>\<rparr>
   \<and> Version (TxEntries.body \<lparr>TxEntries.body = \<lparr>Version = 1\<rparr>\<rparr>) = 1
   \<and> Mux_body.ExtHash (Mux.body (mux_of [source_of assetA 7] [destination_of assetA 7] 5)) \<noteq> 0
   \<and> Mux_CheckValid accepting (mux_of [source_of assetA 7] [destination_of assetA 7] 0)
        (state_of_version 1) = Returns None
   \<and> Mux_CheckValid accepting (mux_of [source_of assetA 7] [destination_of assetA 7] 5)
        (state_of_version 1) = Returns (Some errNonemptyExtHash)
   \<and> Nonce_body.ExtHash (Nonce.body (nonce_of 3 9 5)) \<noteq> 0
   \<and> Nonce_CheckValid accepting (nonce_of 3 9 0) (state_of_version 1) = Returns None
   \<and> Nonce_CheckValid accepting (nonce_of 3 9 5) (state_of_version 1)
       = Returns (Some errNonemptyExtHash)
   \<and> currentTx (state_of_version 2) = Some \<lparr>TxEntries.body = \<lparr>Version = 2\<rparr>\<rparr>
   \<and> Version (TxEntries.body \<lparr>TxEntries.body = \<lparr>Version = 2\<rparr>\<rparr>) \<noteq> 1
   \<and> Mux_CheckValid accepting (mux_of [source_of assetA 7] [destination_of assetA 7] 5)
        (state_of_version 2) = Returns None
   \<and> Nonce_CheckValid accepting (nonce_of 3 9 5) (state_of_version 2) = Returns None"
  using extension_hash_under_version_1 [of "state_of_version 1"
      "\<lparr>TxEntries.body = \<lparr>Version = 1\<rparr>\<rparr>"
      "mux_of [source_of assetA 7] [destination_of assetA 7] 5" accepting "nonce_of 3 9 5"]
    extension_hash_under_version_1 [of "state_of_version 2"
      "\<lparr>TxEntries.body = \<lparr>Version = 2\<rparr>\<rparr>"
      "mux_of [source_of assetA 7] [destination_of assetA 7] 5" accepting "nonce_of 3 9 5"]
  by (simp add: mux_eval nonce_eval)


text \<open>
  Read for every Mux and every Nonce, the sentence of the spec fails where an earlier
  check fails: under version 1 and with
  a nonzero extension hash, a Mux whose program does not verify returns the wrapped
  program error, and a Nonce whose time range starts at zero returns \<open>errZeroTime\<close>.
\<close>

theorem extension_hash_counterexample:
  "currentTx (state_of_version 1) = Some \<lparr>TxEntries.body = \<lparr>Version = 1\<rparr>\<rparr>
   \<and> Mux_body.ExtHash (Mux.body (mux_of [source_of assetA 7] [destination_of assetA 7] 5)) \<noteq> 0
   \<and> Mux_CheckValid rejecting_programs (mux_of [source_of assetA 7] [destination_of assetA 7] 5)
        (state_of_version 1)
       = Returns (Some (Wrap (ErrOther ''false result'') checking_mux_program))
   \<and> Mux_CheckValid rejecting_programs (mux_of [source_of assetA 7] [destination_of assetA 7] 5)
        (state_of_version 1)
       \<noteq> Returns (Some errNonemptyExtHash)
   \<and> Nonce_body.ExtHash (Nonce.body (nonce_of 0 9 5)) \<noteq> 0
   \<and> Nonce_CheckValid accepting (nonce_of 0 9 5) (state_of_version 1) = Returns (Some errZeroTime)
   \<and> Nonce_CheckValid accepting (nonce_of 0 9 5) (state_of_version 1)
       \<noteq> Returns (Some errNonemptyExtHash)"
  by (simp add: mux_eval nonce_eval)


section \<open>The time range of a Nonce\<close>

text \<open>
  C5. For a Nonce whose program verifies (and whose time range is there),
  \<open>CheckValid\<close> returns \<open>errZeroTime\<close> exactly when the minimum or the maximum of the
  time range is zero; when both are nonzero it returns what the check of the extension
  hash returns.
\<close>

theorem Nonce_zero_time_range:
  assumes verify: "vm_Verify E (newTxVMContext (currentTx state) n
                     (Nonce_body.Program (Nonce.body n))
                     (Nonce_witness.Arguments (Nonce.witness n))) = None"
    and tr: "Nonce.TimeRange n = Some tr"
  shows "(Nonce_CheckValid E n state = Returns (Some errZeroTime) \<longleftrightarrow>
            MinTimeMS (TimeRange.body tr) = 0 \<or> MaxTimeMS (TimeRange.body tr) = 0)
       \<and> (MinTimeMS (TimeRange.body tr) \<noteq> 0 \<and> MaxTimeMS (TimeRange.body tr) \<noteq> 0 \<longrightarrow>
            Nonce_CheckValid E n state = checkExtHash state (Nonce_body.ExtHash (Nonce.body n)))"
  using verify tr
  by (auto simp: Nonce_CheckValid_def checkExtHash_def split: option.splits)

theorem Nonce_zero_time_range_witness:
  "vm_Verify accepting (newTxVMContext (currentTx (state_of_version 1)) (nonce_of 0 9 0)
       (Nonce_body.Program (Nonce.body (nonce_of 0 9 0)))
       (Nonce_witness.Arguments (Nonce.witness (nonce_of 0 9 0)))) = None
   \<and> Nonce.TimeRange (nonce_of 0 9 0) = Some \<lparr>TimeRange.body = \<lparr>MinTimeMS = 0, MaxTimeMS = 9\<rparr>\<rparr>
   \<and> Nonce_CheckValid accepting (nonce_of 0 9 0) (state_of_version 1) = Returns (Some errZeroTime)
   \<and> Nonce.TimeRange (nonce_of 3 9 0) = Some \<lparr>TimeRange.body = \<lparr>MinTimeMS = 3, MaxTimeMS = 9\<rparr>\<rparr>
   \<and> Nonce_CheckValid accepting (nonce_of 3 9 0) (state_of_version 1)
       = checkExtHash (state_of_version 1) 0
   \<and> Nonce_CheckValid accepting (nonce_of 3 9 0) (state_of_version 1) = Returns None"
  using Nonce_zero_time_range [of accepting "state_of_version 1" "nonce_of 0 9 0"
      "\<lparr>TimeRange.body = \<lparr>MinTimeMS = 0, MaxTimeMS = 9\<rparr>\<rparr>"]
    Nonce_zero_time_range [of accepting "state_of_version 1" "nonce_of 3 9 0"
      "\<lparr>TimeRange.body = \<lparr>MinTimeMS = 3, MaxTimeMS = 9\<rparr>\<rparr>"]
  by (simp add: nonce_eval)

section \<open>\<open>CHECKOUTPUT\<close>\<close>

lemma vm_methods_pushBool_update [simp]:
  "vm_applyCost (P\<lparr>pushBool := pb\<rparr>) = vm_applyCost P"
  "vm_pop (P\<lparr>pushBool := pb\<rparr>) = vm_pop P"
  "vm_popInt64 (P\<lparr>pushBool := pb\<rparr>) = vm_popInt64 P"
  by (simp_all add: fun_eq_iff vm_applyCost_def vm_pop_def vm_popInt64_def)

lemma opCheckOutput_version:
  assumes "tx vm = Some t"
    and "vm_applyCost P vm 16 = Inr vm_cost"
    and "vm_pop P vm_cost True = Inr (code, vm_code)"
    and "vm_popInt64 P vm_code True = Inr (vmVersion, vm_version)"
    and "sint vmVersion < 0"
  shows "opCheckOutput P vm = Inl ErrBadValue"
  using assms by (simp add: opCheckOutput_def)

lemma opCheckOutput_amount:
  assumes "tx vm = Some t"
    and "vm_applyCost P vm 16 = Inr vm_cost"
    and "vm_pop P vm_cost True = Inr (code, vm_code)"
    and "vm_popInt64 P vm_code True = Inr (vmVersion, vm_version)"
    and "0 \<le> sint vmVersion"
    and "vm_pop P vm_version True = Inr (assetID, vm_asset)"
    and "vm_popInt64 P vm_asset True = Inr (amount, vm_amount)"
    and "sint amount < 0"
  shows "opCheckOutput P vm = Inl ErrBadValue"
  using assms by (simp add: opCheckOutput_def)

lemma opCheckOutput_index:
  assumes "tx vm = Some t"
    and "vm_applyCost P vm 16 = Inr vm_cost"
    and "vm_pop P vm_cost True = Inr (code, vm_code)"
    and "vm_popInt64 P vm_code True = Inr (vmVersion, vm_version)"
    and "0 \<le> sint vmVersion"
    and "vm_pop P vm_version True = Inr (assetID, vm_asset)"
    and "vm_popInt64 P vm_asset True = Inr (amount, vm_amount)"
    and "0 \<le> sint amount"
    and "vm_pop P vm_amount True = Inr (refdatahash, vm_refdata)"
    and "vm_popInt64 P vm_refdata True = Inr (index, vm_index)"
    and "sint index < 0 \<or> MaxUint32 < sint index"
  shows "opCheckOutput P vm = Inl ErrBadValue"
  using assms by (auto simp: opCheckOutput_def)

lemma inputIndex_after:
  "vm_applyCost P vm n = Inr vm' \<Longrightarrow> inputIndex vm' = inputIndex vm"
  "vm_pop P vm d = Inr (b, vm') \<Longrightarrow> inputIndex vm' = inputIndex vm"
  "vm_popInt64 P vm d = Inr (k, vm') \<Longrightarrow> inputIndex vm' = inputIndex vm"
  by (auto simp: vm_applyCost_def vm_pop_def vm_popInt64_def split: sum.splits prod.splits)

lemma opCheckOutput_operands:
  assumes "tx vm = Some t"
    and "vm_applyCost P vm 16 = Inr vm_cost"
    and "vm_pop P vm_cost True = Inr (code, vm_code)"
    and "vm_popInt64 P vm_code True = Inr (vmVersion, vm_version)"
    and "0 \<le> sint vmVersion"
    and "vm_pop P vm_version True = Inr (assetID, vm_asset)"
    and "vm_popInt64 P vm_asset True = Inr (amount, vm_amount)"
    and "0 \<le> sint amount"
    and "vm_pop P vm_amount True = Inr (refdatahash, vm_refdata)"
    and "vm_popInt64 P vm_refdata True = Inr (index, vm_index)"
    and "0 \<le> sint index" and "sint index \<le> MaxUint32"
  shows "opCheckOutput P vm =
     (if \<not> DestIsMux t (inputIndex vm_index) then Inl ErrContext else
      case MuxDest t (ucast index) of
        (isRetirement, destAssetID, destAmount, destData, destVMVersion, destCode, Some err) \<Rightarrow>
          Inl err
      | (isRetirement, destAssetID, destAmount, destData, destVMVersion, destCode, None) \<Rightarrow>
          vm_pushBool P vm_index
            (someChecks assetID amount refdatahash destAssetID destAmount destData
             \<and> (if isRetirement then sint vmVersion = 1 \<and> length code > 0 \<and> code ! 0 = OP_FAIL P
                 else destVMVersion = vmVersion \<and> destCode = code))
            True)"
  using assms
  by (auto simp: opCheckOutput_def split: prod.splits option.splits)

lemma someChecks_iff:
  "someChecks assetID amount refdatahash resAssetID resAmount resData \<longleftrightarrow>
     resAssetID = assetID \<and> resAmount = amount \<and> (refdatahash \<noteq> [] \<longrightarrow> refdatahash = resData)"
  by (auto simp: someChecks_def)

lemma stack_methods:
  "tx (machine_of t s) = Some t"
  "inputIndex (machine_of t s) = 0"
  "vm_applyCost stack_package (machine_of t s) n = Inr (machine_of t s)"
  "vm_pop stack_package (machine_of t (Bytes b # s)) d = Inr (b, machine_of t s)"
  "vm_popInt64 stack_package (machine_of t (Int64 k # s)) d = Inr (k, machine_of t s)"
  "vm_pushBool stack_package (machine_of t s) v d =
     Inr (machine_of t (Bytes (if v then [1] else []) # s))"
  "OP_FAIL stack_package = 106"
  by (simp_all add: machine_of_def stack_package_def vm_applyCost_def vm_pop_def
        vm_popInt64_def vm_pushBool_def)

lemmas vm_eval =
  stack_methods operands_def tx_of_dest_def plain_output_def retirement_def MaxUint32_def


text \<open>
  C7. \<open>opCheckOutput\<close> pops \<open>code\<close>, \<open>vmVersion\<close>, \<open>assetID\<close>, \<open>amount\<close>,
  \<open>refdatahash\<close> and \<open>index\<close>, in this order, each pop working on the machine the
  previous one left. In transaction context, once the cost is charged and \<open>code\<close> and
  \<open>vmVersion\<close> are popped: a negative \<open>vmVersion\<close> gives \<open>ErrBadValue\<close>; otherwise,
  once \<open>assetID\<close> and \<open>amount\<close> are popped, a negative \<open>amount\<close> gives
  \<open>ErrBadValue\<close>; otherwise, once \<open>refdatahash\<close> and \<open>index\<close> are popped, an
  \<open>index\<close> that is negative or above the greatest \<open>uint32\<close> gives \<open>ErrBadValue\<close>, and
  an index in range gives \<open>ErrContext\<close> when \<open>DestIsMux\<close> is false for the current
  input. Each of these results is the same whatever \<open>pushBool\<close> does: nothing is pushed
  before them.
\<close>

theorem opCheckOutput_operand_errors:
  assumes tx: "tx vm = Some t"
    and cost: "vm_applyCost P vm 16 = Inr vm_cost"
    and code: "vm_pop P vm_cost True = Inr (code, vm_code)"
    and version: "vm_popInt64 P vm_code True = Inr (vmVersion, vm_version)"
  shows "(sint vmVersion < 0 \<longrightarrow>
            (\<forall>pb. opCheckOutput (P\<lparr>pushBool := pb\<rparr>) vm = Inl ErrBadValue))
       \<and> (0 \<le> sint vmVersion \<and> vm_pop P vm_version True = Inr (assetID, vm_asset)
            \<and> vm_popInt64 P vm_asset True = Inr (amount, vm_amount) \<longrightarrow>
            (sint amount < 0 \<longrightarrow>
               (\<forall>pb. opCheckOutput (P\<lparr>pushBool := pb\<rparr>) vm = Inl ErrBadValue))
          \<and> (0 \<le> sint amount \<and> vm_pop P vm_amount True = Inr (refdatahash, vm_refdata)
               \<and> vm_popInt64 P vm_refdata True = Inr (index, vm_index) \<longrightarrow>
               (sint index < 0 \<or> MaxUint32 < sint index \<longrightarrow>
                  (\<forall>pb. opCheckOutput (P\<lparr>pushBool := pb\<rparr>) vm = Inl ErrBadValue))
             \<and> (0 \<le> sint index \<and> sint index \<le> MaxUint32
                  \<and> \<not> DestIsMux t (inputIndex vm) \<longrightarrow>
                  (\<forall>pb. opCheckOutput (P\<lparr>pushBool := pb\<rparr>) vm = Inl ErrContext))))"
proof -
  have pre: "vm_applyCost (P\<lparr>pushBool := pb\<rparr>) vm 16 = Inr vm_cost"
    "vm_pop (P\<lparr>pushBool := pb\<rparr>) vm_cost True = Inr (code, vm_code)"
    "vm_popInt64 (P\<lparr>pushBool := pb\<rparr>) vm_code True = Inr (vmVersion, vm_version)" for pb
    using cost code version by simp_all
  have v: "opCheckOutput (P\<lparr>pushBool := pb\<rparr>) vm = Inl ErrBadValue"
    if "sint vmVersion < 0" for pb
    using tx pre that by (rule opCheckOutput_version)
  have a: "opCheckOutput (P\<lparr>pushBool := pb\<rparr>) vm = Inl ErrBadValue"
    if "0 \<le> sint vmVersion" and "vm_pop P vm_version True = Inr (assetID, vm_asset)"
      and "vm_popInt64 P vm_asset True = Inr (amount, vm_amount)" and "sint amount < 0" for pb
  proof -
    have "vm_pop (P\<lparr>pushBool := pb\<rparr>) vm_version True = Inr (assetID, vm_asset)"
      and "vm_popInt64 (P\<lparr>pushBool := pb\<rparr>) vm_asset True = Inr (amount, vm_amount)"
      using that by simp_all
    with tx pre that(1) show ?thesis
      using that(4) by (rule opCheckOutput_amount)
  qed
  have i: "opCheckOutput (P\<lparr>pushBool := pb\<rparr>) vm = Inl ErrBadValue"
    if "0 \<le> sint vmVersion" and "vm_pop P vm_version True = Inr (assetID, vm_asset)"
      and "vm_popInt64 P vm_asset True = Inr (amount, vm_amount)" and "0 \<le> sint amount"
      and "vm_pop P vm_amount True = Inr (refdatahash, vm_refdata)"
      and "vm_popInt64 P vm_refdata True = Inr (index, vm_index)"
      and "sint index < 0 \<or> MaxUint32 < sint index" for pb
  proof -
    have p: "vm_pop (P\<lparr>pushBool := pb\<rparr>) vm_version True = Inr (assetID, vm_asset)"
      "vm_popInt64 (P\<lparr>pushBool := pb\<rparr>) vm_asset True = Inr (amount, vm_amount)"
      using that by simp_all
    have q: "vm_pop (P\<lparr>pushBool := pb\<rparr>) vm_amount True = Inr (refdatahash, vm_refdata)"
      "vm_popInt64 (P\<lparr>pushBool := pb\<rparr>) vm_refdata True = Inr (index, vm_index)"
      using that by simp_all
    show ?thesis
      by (rule opCheckOutput_index [OF tx pre that(1) p that(4) q that(7)])
  qed
  have c: "opCheckOutput (P\<lparr>pushBool := pb\<rparr>) vm = Inl ErrContext"
    if "0 \<le> sint vmVersion" and "vm_pop P vm_version True = Inr (assetID, vm_asset)"
      and "vm_popInt64 P vm_asset True = Inr (amount, vm_amount)" and "0 \<le> sint amount"
      and "vm_pop P vm_amount True = Inr (refdatahash, vm_refdata)"
      and "vm_popInt64 P vm_refdata True = Inr (index, vm_index)"
      and "0 \<le> sint index" and "sint index \<le> MaxUint32"
      and "\<not> DestIsMux t (inputIndex vm)" for pb
  proof -
    have p: "vm_pop (P\<lparr>pushBool := pb\<rparr>) vm_version True = Inr (assetID, vm_asset)"
      "vm_popInt64 (P\<lparr>pushBool := pb\<rparr>) vm_asset True = Inr (amount, vm_amount)"
      using that by simp_all
    have q: "vm_pop (P\<lparr>pushBool := pb\<rparr>) vm_amount True = Inr (refdatahash, vm_refdata)"
      "vm_popInt64 (P\<lparr>pushBool := pb\<rparr>) vm_refdata True = Inr (index, vm_index)"
      using that by simp_all
    have "inputIndex vm_index = inputIndex vm"
      using cost code version that(2,3,5,6) by (simp add: inputIndex_after)
    with that(9) have "\<not> DestIsMux t (inputIndex vm_index)" by simp
    then show ?thesis
      using opCheckOutput_operands [OF tx pre that(1) p that(4) q that(7,8)] by simp
  qed
  show ?thesis
    using v a i c by blast
qed


theorem opCheckOutput_operand_errors_witness:
  "opCheckOutput stack_package
     (machine_of (tx_of_dest True plain_output) (operands [81, 82] (- 1) [10] 5 [] 0))
     = Inl ErrBadValue
   \<and> opCheckOutput stack_package
     (machine_of (tx_of_dest True plain_output) (operands [81, 82] 1 [10] (- 5) [] 0))
     = Inl ErrBadValue
   \<and> opCheckOutput stack_package
     (machine_of (tx_of_dest True plain_output) (operands [81, 82] 1 [10] 5 [] (- 1)))
     = Inl ErrBadValue
   \<and> opCheckOutput stack_package
     (machine_of (tx_of_dest True plain_output) (operands [81, 82] 1 [10] 5 [] 4294967296))
     = Inl ErrBadValue
   \<and> opCheckOutput stack_package
     (machine_of (tx_of_dest False plain_output) (operands [81, 82] 1 [10] 5 [] 0))
     = Inl ErrContext
   \<and> opCheckOutput stack_package
     (machine_of (tx_of_dest True plain_output) (operands [81, 82] 1 [10] 5 [] 0))
     = Inr (machine_of (tx_of_dest True plain_output) [Bytes [1]])"
proof -
  let ?t = "tx_of_dest True plain_output"
  let ?f = "tx_of_dest False plain_output"
  have "\<forall>pb. opCheckOutput (stack_package\<lparr>pushBool := pb\<rparr>)
     (machine_of ?t (operands [81, 82] (- 1) [10] 5 [] 0)) = Inl ErrBadValue"
    using opCheckOutput_operand_errors
      [where P = stack_package and t = ?t and code = "[81, 82]" and vmVersion = "- 1"
         and vm = "machine_of ?t (operands [81, 82] (- 1) [10] 5 [] 0)"
         and vm_cost = "machine_of ?t (operands [81, 82] (- 1) [10] 5 [] 0)"
         and vm_code = "machine_of ?t (tl (operands [81, 82] (- 1) [10] 5 [] 0))"
         and vm_version = "machine_of ?t (drop 2 (operands [81, 82] (- 1) [10] 5 [] 0))"]
    by (simp add: vm_eval)
  then have "opCheckOutput (stack_package\<lparr>pushBool := pushBool stack_package\<rparr>)
     (machine_of ?t (operands [81, 82] (- 1) [10] 5 [] 0)) = Inl ErrBadValue"
    by (rule spec)
  then have v: "opCheckOutput stack_package
     (machine_of ?t (operands [81, 82] (- 1) [10] 5 [] 0)) = Inl ErrBadValue"
    by simp
  have "\<forall>pb. opCheckOutput (stack_package\<lparr>pushBool := pb\<rparr>)
     (machine_of ?t (operands [81, 82] 1 [10] (- 5) [] 0)) = Inl ErrBadValue"
    using opCheckOutput_operand_errors
      [where P = stack_package and t = ?t and code = "[81, 82]" and vmVersion = 1
         and assetID = "[10]" and amount = "- 5"
         and vm = "machine_of ?t (operands [81, 82] 1 [10] (- 5) [] 0)"
         and vm_cost = "machine_of ?t (operands [81, 82] 1 [10] (- 5) [] 0)"
         and vm_code = "machine_of ?t (tl (operands [81, 82] 1 [10] (- 5) [] 0))"
         and vm_version = "machine_of ?t (drop 2 (operands [81, 82] 1 [10] (- 5) [] 0))"
         and vm_asset = "machine_of ?t (drop 3 (operands [81, 82] 1 [10] (- 5) [] 0))"
         and vm_amount = "machine_of ?t (drop 4 (operands [81, 82] 1 [10] (- 5) [] 0))"]
    by (simp add: vm_eval)
  then have "opCheckOutput (stack_package\<lparr>pushBool := pushBool stack_package\<rparr>)
     (machine_of ?t (operands [81, 82] 1 [10] (- 5) [] 0)) = Inl ErrBadValue"
    by (rule spec)
  then have a: "opCheckOutput stack_package
     (machine_of ?t (operands [81, 82] 1 [10] (- 5) [] 0)) = Inl ErrBadValue"
    by simp
  have "\<forall>pb. opCheckOutput (stack_package\<lparr>pushBool := pb\<rparr>)
     (machine_of ?t (operands [81, 82] 1 [10] 5 [] 4294967296)) = Inl ErrBadValue"
    using opCheckOutput_operand_errors
      [where P = stack_package and t = ?t and code = "[81, 82]" and vmVersion = 1
         and assetID = "[10]" and amount = 5 and refdatahash = "[]" and index = 4294967296
         and vm = "machine_of ?t (operands [81, 82] 1 [10] 5 [] 4294967296)"
         and vm_cost = "machine_of ?t (operands [81, 82] 1 [10] 5 [] 4294967296)"
         and vm_code = "machine_of ?t (tl (operands [81, 82] 1 [10] 5 [] 4294967296))"
         and vm_version = "machine_of ?t (drop 2 (operands [81, 82] 1 [10] 5 [] 4294967296))"
         and vm_asset = "machine_of ?t (drop 3 (operands [81, 82] 1 [10] 5 [] 4294967296))"
         and vm_amount = "machine_of ?t (drop 4 (operands [81, 82] 1 [10] 5 [] 4294967296))"
         and vm_refdata = "machine_of ?t (drop 5 (operands [81, 82] 1 [10] 5 [] 4294967296))"
         and vm_index = "machine_of ?t []"]
    by (simp add: vm_eval)
  then have "opCheckOutput (stack_package\<lparr>pushBool := pushBool stack_package\<rparr>)
     (machine_of ?t (operands [81, 82] 1 [10] 5 [] 4294967296)) = Inl ErrBadValue"
    by (rule spec)
  then have i: "opCheckOutput stack_package
     (machine_of ?t (operands [81, 82] 1 [10] 5 [] 4294967296)) = Inl ErrBadValue"
    by simp
  have "\<forall>pb. opCheckOutput (stack_package\<lparr>pushBool := pb\<rparr>)
     (machine_of ?f (operands [81, 82] 1 [10] 5 [] 0)) = Inl ErrContext"
    using opCheckOutput_operand_errors
      [where P = stack_package and t = ?f and code = "[81, 82]" and vmVersion = 1
         and assetID = "[10]" and amount = 5 and refdatahash = "[]" and index = 0
         and vm = "machine_of ?f (operands [81, 82] 1 [10] 5 [] 0)"
         and vm_cost = "machine_of ?f (operands [81, 82] 1 [10] 5 [] 0)"
         and vm_code = "machine_of ?f (tl (operands [81, 82] 1 [10] 5 [] 0))"
         and vm_version = "machine_of ?f (drop 2 (operands [81, 82] 1 [10] 5 [] 0))"
         and vm_asset = "machine_of ?f (drop 3 (operands [81, 82] 1 [10] 5 [] 0))"
         and vm_amount = "machine_of ?f (drop 4 (operands [81, 82] 1 [10] 5 [] 0))"
         and vm_refdata = "machine_of ?f (drop 5 (operands [81, 82] 1 [10] 5 [] 0))"
         and vm_index = "machine_of ?f []"]
    by (simp add: vm_eval)
  then have "opCheckOutput (stack_package\<lparr>pushBool := pushBool stack_package\<rparr>)
     (machine_of ?f (operands [81, 82] 1 [10] 5 [] 0)) = Inl ErrContext"
    by (rule spec)
  then have c: "opCheckOutput stack_package
     (machine_of ?f (operands [81, 82] 1 [10] 5 [] 0)) = Inl ErrContext"
    by simp
  have rest: "opCheckOutput stack_package
     (machine_of ?t (operands [81, 82] 1 [10] 5 [] (- 1))) = Inl ErrBadValue"
    "opCheckOutput stack_package
     (machine_of ?t (operands [81, 82] 1 [10] 5 [] 0)) = Inr (machine_of ?t [Bytes [1]])"
    by (simp_all add: opCheckOutput_def someChecks_def vm_eval)
  show ?thesis
    using v a i c rest by simp
qed

text \<open>
  C3. In transaction context, with the six operands popped and in range, \<open>DestIsMux\<close>
  true and the destination at \<open>index\<close> resolved without error, \<open>opCheckOutput\<close>
  pushes one boolean. It is true exactly when the destination's asset ID and amount equal
  the operands, its reference-data digest equals \<open>refdatahash\<close> unless that is empty,
  and: for a retirement, \<open>vmVersion\<close> is 1 and \<open>code\<close> starts with \<open>OP_FAIL\<close>; for
  any other destination, \<open>vmVersion\<close> and \<open>code\<close> equal the destination's VM version
  and program.
\<close>

theorem opCheckOutput_verdict:
  assumes tx: "tx vm = Some t"
    and cost: "vm_applyCost P vm 16 = Inr vm_cost"
    and code: "vm_pop P vm_cost True = Inr (code, vm_code)"
    and version: "vm_popInt64 P vm_code True = Inr (vmVersion, vm_version)"
    and asset: "vm_pop P vm_version True = Inr (assetID, vm_asset)"
    and amount: "vm_popInt64 P vm_asset True = Inr (amount, vm_amount)"
    and refdata: "vm_pop P vm_amount True = Inr (refdatahash, vm_refdata)"
    and index: "vm_popInt64 P vm_refdata True = Inr (index, vm_index)"
    and ranges: "0 \<le> sint vmVersion" "0 \<le> sint amount" "0 \<le> sint index"
      "sint index \<le> MaxUint32"
    and isMux: "DestIsMux t (inputIndex vm)"
    and dest: "MuxDest t (ucast index) =
        (isRetirement, destAssetID, destAmount, destData, destVMVersion, destCode, None)"
  shows "opCheckOutput P vm =
           vm_pushBool P vm_index
             (destAssetID = assetID \<and> destAmount = amount
              \<and> (refdatahash \<noteq> [] \<longrightarrow> destData = refdatahash)
              \<and> (if isRetirement then vmVersion = 1 \<and> code \<noteq> [] \<and> hd code = OP_FAIL P
                  else destVMVersion = vmVersion \<and> destCode = code))
             True"
proof -
  have "inputIndex vm_index = inputIndex vm"
    using cost code version asset amount refdata index by (simp add: inputIndex_after)
  with isMux have m: "DestIsMux t (inputIndex vm_index)" by simp
  have one: "sint vmVersion = 1 \<longleftrightarrow> vmVersion = 1"
    using signed_word_eqI [of vmVersion 1] by auto
  have hd: "code \<noteq> [] \<Longrightarrow> code ! 0 = hd code"
    by (simp add: hd_conv_nth)
  have "opCheckOutput P vm =
     (if \<not> DestIsMux t (inputIndex vm_index) then Inl ErrContext else
      case MuxDest t (ucast index) of
        (isRetirement, destAssetID, destAmount, destData, destVMVersion, destCode, Some err) \<Rightarrow>
          Inl err
      | (isRetirement, destAssetID, destAmount, destData, destVMVersion, destCode, None) \<Rightarrow>
          vm_pushBool P vm_index
            (someChecks assetID amount refdatahash destAssetID destAmount destData
             \<and> (if isRetirement then sint vmVersion = 1 \<and> length code > 0 \<and> code ! 0 = OP_FAIL P
                 else destVMVersion = vmVersion \<and> destCode = code))
            True)"
    using tx cost code version ranges(1) asset amount ranges(2) refdata index ranges(3,4)
    by (rule opCheckOutput_operands)
  also have "\<dots> = vm_pushBool P vm_index
            (someChecks assetID amount refdatahash destAssetID destAmount destData
             \<and> (if isRetirement then sint vmVersion = 1 \<and> length code > 0 \<and> code ! 0 = OP_FAIL P
                 else destVMVersion = vmVersion \<and> destCode = code))
            True"
    using m dest by simp
  also have "(someChecks assetID amount refdatahash destAssetID destAmount destData
             \<and> (if isRetirement then sint vmVersion = 1 \<and> length code > 0 \<and> code ! 0 = OP_FAIL P
                 else destVMVersion = vmVersion \<and> destCode = code))
           = (destAssetID = assetID \<and> destAmount = amount
              \<and> (refdatahash \<noteq> [] \<longrightarrow> destData = refdatahash)
              \<and> (if isRetirement then vmVersion = 1 \<and> code \<noteq> [] \<and> hd code = OP_FAIL P
                  else destVMVersion = vmVersion \<and> destCode = code))"
    using hd by (auto simp: someChecks_iff one)
  finally show ?thesis .
qed

theorem opCheckOutput_verdict_witness:
  "opCheckOutput stack_package
     (machine_of (tx_of_dest True retirement) (operands [106, 0] 1 [10] 5 [] 0))
     = Inr (machine_of (tx_of_dest True retirement) [Bytes [1]])
   \<and> opCheckOutput stack_package
     (machine_of (tx_of_dest True retirement) (operands [106, 0] 2 [10] 5 [] 0))
     = Inr (machine_of (tx_of_dest True retirement) [Bytes []])
   \<and> opCheckOutput stack_package
     (machine_of (tx_of_dest True plain_output) (operands [81, 82] 1 [10] 5 [7, 7] 0))
     = Inr (machine_of (tx_of_dest True plain_output) [Bytes [1]])
   \<and> opCheckOutput stack_package
     (machine_of (tx_of_dest True plain_output) (operands [81, 83] 1 [10] 5 [7, 7] 0))
     = Inr (machine_of (tx_of_dest True plain_output) [Bytes []])
   \<and> opCheckOutput stack_package
     (machine_of (tx_of_dest True retirement) (operands [105, 0] 1 [10] 5 [] 0))
     = Inr (machine_of (tx_of_dest True retirement) [Bytes []])
   \<and> opCheckOutput stack_package
     (machine_of (tx_of_dest True retirement) (operands [] 1 [10] 5 [] 0))
     = Inr (machine_of (tx_of_dest True retirement) [Bytes []])
   \<and> opCheckOutput stack_package
     (machine_of (tx_of_dest True plain_output) (operands [81, 82] 2 [10] 5 [7, 7] 0))
     = Inr (machine_of (tx_of_dest True plain_output) [Bytes []])
   \<and> opCheckOutput stack_package
     (machine_of (tx_of_dest True plain_output) (operands [81, 82] 1 [11] 5 [7, 7] 0))
     = Inr (machine_of (tx_of_dest True plain_output) [Bytes []])
   \<and> opCheckOutput stack_package
     (machine_of (tx_of_dest True plain_output) (operands [81, 82] 1 [10] 6 [7, 7] 0))
     = Inr (machine_of (tx_of_dest True plain_output) [Bytes []])
   \<and> opCheckOutput stack_package
     (machine_of (tx_of_dest True plain_output) (operands [81, 82] 1 [10] 5 [7, 8] 0))
     = Inr (machine_of (tx_of_dest True plain_output) [Bytes []])
   \<and> opCheckOutput stack_package
     (machine_of (tx_of_dest True plain_output) (operands [81, 82] 1 [10] 5 [] 0))
     = Inr (machine_of (tx_of_dest True plain_output) [Bytes [1]])"
proof -
  let ?r = "tx_of_dest True retirement"
  let ?p = "tx_of_dest True plain_output"
  have r1: "opCheckOutput stack_package
     (machine_of ?r (operands [106, 0] 1 [10] 5 [] 0))
     = Inr (machine_of ?r [Bytes [1]])"
    using opCheckOutput_verdict
      [where P = stack_package and t = ?r and code = "[106, 0]" and vmVersion = 1
         and assetID = "[10]" and amount = 5 and refdatahash = "[]" and index = 0
         and vm = "machine_of ?r (operands [106, 0] 1 [10] 5 [] 0)"
         and vm_cost = "machine_of ?r (operands [106, 0] 1 [10] 5 [] 0)"
         and vm_code = "machine_of ?r (tl (operands [106, 0] 1 [10] 5 [] 0))"
         and vm_version = "machine_of ?r (drop 2 (operands [106, 0] 1 [10] 5 [] 0))"
         and vm_asset = "machine_of ?r (drop 3 (operands [106, 0] 1 [10] 5 [] 0))"
         and vm_amount = "machine_of ?r (drop 4 (operands [106, 0] 1 [10] 5 [] 0))"
         and vm_refdata = "machine_of ?r (drop 5 (operands [106, 0] 1 [10] 5 [] 0))"
         and vm_index = "machine_of ?r []"
         and isRetirement = True and destAssetID = "[10]" and destAmount = 5
         and destData = "[7, 7]" and destVMVersion = 0 and destCode = "[]"]
    by (simp add: vm_eval)
  have r2: "opCheckOutput stack_package
     (machine_of ?r (operands [106, 0] 2 [10] 5 [] 0))
     = Inr (machine_of ?r [Bytes []])"
    using opCheckOutput_verdict
      [where P = stack_package and t = ?r and code = "[106, 0]" and vmVersion = 2
         and assetID = "[10]" and amount = 5 and refdatahash = "[]" and index = 0
         and vm = "machine_of ?r (operands [106, 0] 2 [10] 5 [] 0)"
         and vm_cost = "machine_of ?r (operands [106, 0] 2 [10] 5 [] 0)"
         and vm_code = "machine_of ?r (tl (operands [106, 0] 2 [10] 5 [] 0))"
         and vm_version = "machine_of ?r (drop 2 (operands [106, 0] 2 [10] 5 [] 0))"
         and vm_asset = "machine_of ?r (drop 3 (operands [106, 0] 2 [10] 5 [] 0))"
         and vm_amount = "machine_of ?r (drop 4 (operands [106, 0] 2 [10] 5 [] 0))"
         and vm_refdata = "machine_of ?r (drop 5 (operands [106, 0] 2 [10] 5 [] 0))"
         and vm_index = "machine_of ?r []"
         and isRetirement = True and destAssetID = "[10]" and destAmount = 5
         and destData = "[7, 7]" and destVMVersion = 0 and destCode = "[]"]
    by (simp add: vm_eval)
  have p1: "opCheckOutput stack_package
     (machine_of ?p (operands [81, 82] 1 [10] 5 [7, 7] 0))
     = Inr (machine_of ?p [Bytes [1]])"
    using opCheckOutput_verdict
      [where P = stack_package and t = ?p and code = "[81, 82]" and vmVersion = 1
         and assetID = "[10]" and amount = 5 and refdatahash = "[7, 7]" and index = 0
         and vm = "machine_of ?p (operands [81, 82] 1 [10] 5 [7, 7] 0)"
         and vm_cost = "machine_of ?p (operands [81, 82] 1 [10] 5 [7, 7] 0)"
         and vm_code = "machine_of ?p (tl (operands [81, 82] 1 [10] 5 [7, 7] 0))"
         and vm_version = "machine_of ?p (drop 2 (operands [81, 82] 1 [10] 5 [7, 7] 0))"
         and vm_asset = "machine_of ?p (drop 3 (operands [81, 82] 1 [10] 5 [7, 7] 0))"
         and vm_amount = "machine_of ?p (drop 4 (operands [81, 82] 1 [10] 5 [7, 7] 0))"
         and vm_refdata = "machine_of ?p (drop 5 (operands [81, 82] 1 [10] 5 [7, 7] 0))"
         and vm_index = "machine_of ?p []"
         and isRetirement = False and destAssetID = "[10]" and destAmount = 5
         and destData = "[7, 7]" and destVMVersion = 1 and destCode = "[81, 82]"]
    by (simp add: vm_eval)
  have p2: "opCheckOutput stack_package
     (machine_of ?p (operands [81, 83] 1 [10] 5 [7, 7] 0))
     = Inr (machine_of ?p [Bytes []])"
    using opCheckOutput_verdict
      [where P = stack_package and t = ?p and code = "[81, 83]" and vmVersion = 1
         and assetID = "[10]" and amount = 5 and refdatahash = "[7, 7]" and index = 0
         and vm = "machine_of ?p (operands [81, 83] 1 [10] 5 [7, 7] 0)"
         and vm_cost = "machine_of ?p (operands [81, 83] 1 [10] 5 [7, 7] 0)"
         and vm_code = "machine_of ?p (tl (operands [81, 83] 1 [10] 5 [7, 7] 0))"
         and vm_version = "machine_of ?p (drop 2 (operands [81, 83] 1 [10] 5 [7, 7] 0))"
         and vm_asset = "machine_of ?p (drop 3 (operands [81, 83] 1 [10] 5 [7, 7] 0))"
         and vm_amount = "machine_of ?p (drop 4 (operands [81, 83] 1 [10] 5 [7, 7] 0))"
         and vm_refdata = "machine_of ?p (drop 5 (operands [81, 83] 1 [10] 5 [7, 7] 0))"
         and vm_index = "machine_of ?p []"
         and isRetirement = False and destAssetID = "[10]" and destAmount = 5
         and destData = "[7, 7]" and destVMVersion = 1 and destCode = "[81, 82]"]
    by (simp add: vm_eval)
  have rest:
    "opCheckOutput stack_package
     (machine_of ?r (operands [105, 0] 1 [10] 5 [] 0))
     = Inr (machine_of ?r [Bytes []])"
    "opCheckOutput stack_package
     (machine_of ?r (operands [] 1 [10] 5 [] 0))
     = Inr (machine_of ?r [Bytes []])"
    "opCheckOutput stack_package
     (machine_of ?p (operands [81, 82] 2 [10] 5 [7, 7] 0))
     = Inr (machine_of ?p [Bytes []])"
    "opCheckOutput stack_package
     (machine_of ?p (operands [81, 82] 1 [11] 5 [7, 7] 0))
     = Inr (machine_of ?p [Bytes []])"
    "opCheckOutput stack_package
     (machine_of ?p (operands [81, 82] 1 [10] 6 [7, 7] 0))
     = Inr (machine_of ?p [Bytes []])"
    "opCheckOutput stack_package
     (machine_of ?p (operands [81, 82] 1 [10] 5 [7, 8] 0))
     = Inr (machine_of ?p [Bytes []])"
    "opCheckOutput stack_package
     (machine_of ?p (operands [81, 82] 1 [10] 5 [] 0))
     = Inr (machine_of ?p [Bytes [1]])"
    by (simp_all add: opCheckOutput_def someChecks_def vm_eval)
  show ?thesis
    using r1 r2 p1 p2 rest by simp
qed

end
